theory Spec2Isabelle
  imports Main "HOL-Library.Word"
begin

section \<open>Python strings\<close>

text \<open>
  A Python \<open>str\<close> is a sequence of Unicode code points, and \<open>len\<close>, slicing and the
  regular expressions of \<open>re\<close> count code points. A string is therefore modelled as the
  list of its code points, each a natural number (below \<open>0x110000\<close> in every string the
  interpreter can hold). ASCII literals are written through \<open>ascii\<close>.
\<close>

type_synonym ustr = "nat list"

definition ascii :: "string \<Rightarrow> ustr" where
  "ascii s = map of_char s"

text \<open>
  \<open>str.isspace\<close>, \<open>str.strip\<close>, \<open>str.split\<close> and the class \<open>\s\<close> of \<open>re\<close> on a
  \<open>str\<close> pattern all use the interpreter's one whitespace predicate: the characters below.
\<close>

definition isspace :: "nat \<Rightarrow> bool" where
  "isspace c \<longleftrightarrow>
     (9 \<le> c \<and> c \<le> 13) \<or> (28 \<le> c \<and> c \<le> 32) \<or> c = 0x85 \<or> c = 0xA0 \<or> c = 0x1680 \<or>
     (0x2000 \<le> c \<and> c \<le> 0x200A) \<or> c = 0x2028 \<or> c = 0x2029 \<or> c = 0x202F \<or>
     c = 0x205F \<or> c = 0x3000"

text \<open>
  The class \<open>\w\<close> on a \<open>str\<close> pattern is "alphanumeric in the Unicode database, or the
  underscore". On ASCII the alphanumerics are the letters and the digits; beyond ASCII the
  table belongs to the interpreter, not to the repository, and is the parameter \<open>U\<close>.
\<close>

definition ascii_alnum :: "nat \<Rightarrow> bool" where
  "ascii_alnum c \<longleftrightarrow> (48 \<le> c \<and> c \<le> 57) \<or> (65 \<le> c \<and> c \<le> 90) \<or> (97 \<le> c \<and> c \<le> 122)"

definition isalnum :: "(nat \<Rightarrow> bool) \<Rightarrow> nat \<Rightarrow> bool" where
  "isalnum U c = (if c < 128 then ascii_alnum c else U c)"

definition re_word :: "(nat \<Rightarrow> bool) \<Rightarrow> nat \<Rightarrow> bool" where
  "re_word U c \<longleftrightarrow> isalnum U c \<or> c = 95"

text \<open>
  One concrete table, used where a closed example needs one: the alphanumerics of the
  Latin-1 supplement (\<open>0xAA\<close>, \<open>0xB2\<close>, \<open>0xB3\<close>, \<open>0xB5\<close>, \<open>0xB9\<close>, \<open>0xBA\<close>, the
  fractions \<open>0xBC\<close> to \<open>0xBE\<close>, and the letters \<open>0xC0\<close> to \<open>0xFF\<close> without the two
  operators \<open>0xD7\<close> and \<open>0xF7\<close>), and nothing above \<open>0xFF\<close>. It agrees with the
  interpreter's table on the code points up to \<open>0xFF\<close> only, and the examples that use it
  hold no character above; the theorems are stated for every table.
\<close>

definition latin1_alnum :: "nat \<Rightarrow> bool" where
  "latin1_alnum c \<longleftrightarrow>
     c = 0xAA \<or> c = 0xB2 \<or> c = 0xB3 \<or> c = 0xB5 \<or> c = 0xB9 \<or> c = 0xBA \<or>
     (0xBC \<le> c \<and> c \<le> 0xBE) \<or> (0xC0 \<le> c \<and> c \<le> 0xFF \<and> c \<noteq> 0xD7 \<and> c \<noteq> 0xF7)"

text \<open>\<open>re.sub(r'\s+', ' ', s)\<close>: every maximal run of whitespace becomes one space.\<close>

function collapse_ws :: "ustr \<Rightarrow> ustr" where
  "collapse_ws [] = []"
| "collapse_ws (c # cs) =
     (if isspace c then 32 # collapse_ws (dropWhile isspace cs) else c # collapse_ws cs)"
  by pat_completeness auto
termination
  by (relation "measure length") (auto simp: length_dropWhile_le less_Suc_eq_le)

text \<open>\<open>s.strip()\<close>, \<open>s.rstrip('_')\<close>, \<open>s.split()\<close>, \<open>sep.join(words)\<close> and \<open>s[:n]\<close>.\<close>

definition strip :: "ustr \<Rightarrow> ustr" where
  "strip s = rev (dropWhile isspace (rev (dropWhile isspace s)))"

definition rstrip_chars :: "nat \<Rightarrow> ustr \<Rightarrow> ustr" where
  "rstrip_chars ch s = rev (dropWhile (\<lambda>c. c = ch) (rev s))"

function split_ws :: "ustr \<Rightarrow> ustr list" where
  "split_ws [] = []"
| "split_ws (c # cs) =
     (if isspace c then split_ws cs
      else (c # takeWhile (\<lambda>x. \<not> isspace x) cs) # split_ws (dropWhile (\<lambda>x. \<not> isspace x) cs))"
  by pat_completeness auto
termination
  by (relation "measure length") (auto simp: length_dropWhile_le less_Suc_eq_le)

fun join :: "ustr \<Rightarrow> ustr list \<Rightarrow> ustr" where
  "join sep [] = []"
| "join sep [w] = w"
| "join sep (w # v # ws) = w @ sep @ join sep (v # ws)"

definition py_prefix :: "'a list \<Rightarrow> int \<Rightarrow> 'a list" where
  \<comment> \<open>\<open>xs[:n]\<close>: a negative \<open>n\<close> counts from the end\<close>
  "py_prefix xs n = (if 0 \<le> n then take (nat n) xs else take (length xs - nat (- n)) xs)"

section \<open>Filename sanitization\<close>

text \<open>
  \<^verbatim>\<open>
  def _sanitize_filename(self, text, max_length=30):
      cleaned = re.sub(r'[^\w\s\-\']', '', text)
      cleaned = re.sub(r'\s+', ' ', cleaned).strip()
      words = cleaned.split()[:4]
      result = '_'.join(words)
      if len(result) > max_length:
          result = result[:max_length].rstrip('_')
      return result if result else "audio"
  \<close>
\<close>

definition sanitize_filename :: "(nat \<Rightarrow> bool) \<Rightarrow> ustr \<Rightarrow> int \<Rightarrow> ustr" where
  "sanitize_filename U text max_length =
     (let cleaned = filter (\<lambda>c. re_word U c \<or> isspace c \<or> c = 45 \<or> c = 39) text;
          cleaned = strip (collapse_ws cleaned);
          words = take 4 (split_ws cleaned);
          result = join [95] words;
          result = (if int (length result) > max_length
                    then rstrip_chars 95 (py_prefix result max_length) else result)
      in if result \<noteq> [] then result else ascii ''audio'')"

text \<open>
  The rule as the specification words it: strip all characters except letters, digits,
  whitespace, hyphen, apostrophe; collapse whitespace runs to a single space; trim; take
  at most the first 4 whitespace-separated words; join with underscore; truncate to 30
  characters trimming any trailing underscore; substitute \<open>audio\<close> if the result is empty.
  "Letters, digits" is read as the alphanumeric characters, the class \<open>\w\<close> without the
  underscore.
\<close>

definition spec_slug :: "(nat \<Rightarrow> bool) \<Rightarrow> ustr \<Rightarrow> ustr" where
  "spec_slug U text =
     (let kept = filter (\<lambda>c. isalnum U c \<or> isspace c \<or> c = 45 \<or> c = 39) text;
          trimmed = strip (collapse_ws kept);
          words = take 4 (split_ws trimmed);
          joined = join [95] words;
          cut = rstrip_chars 95 (take 30 joined)
      in if cut = [] then ascii ''audio'' else cut)"

section \<open>UTF-8 and MD5\<close>

text \<open>
  \<open>content.encode('utf-8')\<close>: one to four bytes for each Unicode scalar value. A surrogate
  code point (\<open>0xD800\<close> to \<open>0xDFFF\<close>, which a \<open>str\<close> may hold alone) has no UTF-8 form and
  the call raises \<open>UnicodeEncodeError\<close>; so does, in the model, a number that is no code
  point at all.
\<close>

type_synonym byte = "8 word"

text \<open>
  The exceptions of the program. \<open>NotModelled\<close> is not one of them: it marks a run that
  leaves the modelled fragment (a cache file that holds a JSON document other than an
  object of strings, which \<open>json.load\<close> returns as it is).
\<close>

datatype error =
    UnicodeEncodeError
  | UnicodeDecodeError
  | JSONDecodeError
  | KeyError
  | OSError ustr
  | SynthesisError ustr
  | NotModelled

definition is_scalar :: "nat \<Rightarrow> bool" where
  "is_scalar c \<longleftrightarrow> c < 0xD800 \<or> (0xDFFF < c \<and> c < 0x110000)"

definition utf8_char :: "nat \<Rightarrow> byte list" where
  "utf8_char c =
     (if c < 0x80 then [of_nat c]
      else if c < 0x800 then [of_nat (0xC0 + c div 64), of_nat (0x80 + c mod 64)]
      else if c < 0x10000 then
        [of_nat (0xE0 + c div 4096), of_nat (0x80 + c div 64 mod 64), of_nat (0x80 + c mod 64)]
      else
        [of_nat (0xF0 + c div 262144), of_nat (0x80 + c div 4096 mod 64),
         of_nat (0x80 + c div 64 mod 64), of_nat (0x80 + c mod 64)])"

definition encode_utf8 :: "ustr \<Rightarrow> error + byte list" where
  "encode_utf8 s =
     (if list_all is_scalar s then Inr (concat (map utf8_char s)) else Inl UnicodeEncodeError)"

text \<open>
  \<open>hashlib.md5\<close> (RFC 1321): the message is padded with \<open>0x80\<close>, zeros up to 56 modulo 64
  and its bit length as 64 bits little-endian; each block of 64 bytes drives 64 steps on
  four 32-bit words.
\<close>

definition md5_K :: "32 word list" where
  "md5_K =
     [0xd76aa478, 0xe8c7b756, 0x242070db, 0xc1bdceee,
      0xf57c0faf, 0x4787c62a, 0xa8304613, 0xfd469501,
      0x698098d8, 0x8b44f7af, 0xffff5bb1, 0x895cd7be,
      0x6b901122, 0xfd987193, 0xa679438e, 0x49b40821,
      0xf61e2562, 0xc040b340, 0x265e5a51, 0xe9b6c7aa,
      0xd62f105d, 0x02441453, 0xd8a1e681, 0xe7d3fbc8,
      0x21e1cde6, 0xc33707d6, 0xf4d50d87, 0x455a14ed,
      0xa9e3e905, 0xfcefa3f8, 0x676f02d9, 0x8d2a4c8a,
      0xfffa3942, 0x8771f681, 0x6d9d6122, 0xfde5380c,
      0xa4beea44, 0x4bdecfa9, 0xf6bb4b60, 0xbebfbc70,
      0x289b7ec6, 0xeaa127fa, 0xd4ef3085, 0x04881d05,
      0xd9d4d039, 0xe6db99e5, 0x1fa27cf8, 0xc4ac5665,
      0xf4292244, 0x432aff97, 0xab9423a7, 0xfc93a039,
      0x655b59c3, 0x8f0ccc92, 0xffeff47d, 0x85845dd1,
      0x6fa87e4f, 0xfe2ce6e0, 0xa3014314, 0x4e0811a1,
      0xf7537e82, 0xbd3af235, 0x2ad7d2bb, 0xeb86d391]"

definition md5_shift :: "nat list" where
  "md5_shift =
     [7, 12, 17, 22, 7, 12, 17, 22, 7, 12, 17, 22, 7, 12, 17, 22,
      5, 9, 14, 20, 5, 9, 14, 20, 5, 9, 14, 20, 5, 9, 14, 20,
      4, 11, 16, 23, 4, 11, 16, 23, 4, 11, 16, 23, 4, 11, 16, 23,
      6, 10, 15, 21, 6, 10, 15, 21, 6, 10, 15, 21, 6, 10, 15, 21]"

definition le_bytes :: "nat \<Rightarrow> nat \<Rightarrow> byte list" where
  \<comment> \<open>the \<open>k\<close> low bytes of \<open>n\<close>, least significant first\<close>
  "le_bytes k n = map (\<lambda>i. of_nat (n div 256 ^ i mod 256)) [0..<k]"

definition le_word :: "byte list \<Rightarrow> 32 word" where
  "le_word bs = of_nat (foldr (\<lambda>b acc. unat b + 256 * acc) bs 0)"

definition md5_pad :: "byte list \<Rightarrow> byte list" where
  "md5_pad m =
     m @ [0x80] @ replicate ((119 - length m mod 64) mod 64) 0 @
     le_bytes 8 (8 * length m mod 2 ^ 64)"

definition blocks :: "nat \<Rightarrow> 'a list \<Rightarrow> 'a list list" where
  "blocks n xs = map (\<lambda>i. take n (drop (i * n) xs)) [0..<length xs div n]"

definition rotl32 :: "nat \<Rightarrow> 32 word \<Rightarrow> 32 word" where
  \<comment> \<open>rotation to the left: \<open>(x << k) | (x >> (32 - k))\<close>\<close>
  "rotl32 k x = or (push_bit k x) (drop_bit (32 - k) x)"

type_synonym md5_state = "32 word \<times> 32 word \<times> 32 word \<times> 32 word"

definition md5_step :: "32 word list \<Rightarrow> nat \<Rightarrow> md5_state \<Rightarrow> md5_state" where
  "md5_step M i st =
     (case st of (A, B, C, D) \<Rightarrow>
        let (F, g) =
              (if i < 16 then (or (and B C) (and (not B) D), i)
               else if i < 32 then (or (and D B) (and (not D) C), (5 * i + 1) mod 16)
               else if i < 48 then (xor (xor B C) D, (3 * i + 5) mod 16)
               else (xor C (or B (not D)), (7 * i) mod 16));
            F = F + A + md5_K ! i + M ! g
        in (D, B + rotl32 (md5_shift ! i) F, B, C))"

definition md5_block :: "byte list \<Rightarrow> md5_state \<Rightarrow> md5_state" where
  "md5_block blk st =
     (case st of (a0, b0, c0, d0) \<Rightarrow>
        case fold (md5_step (map le_word (blocks 4 blk))) [0..<64] st of
          (A, B, C, D) \<Rightarrow> (a0 + A, b0 + B, c0 + C, d0 + D))"

definition md5 :: "byte list \<Rightarrow> byte list" where
  "md5 m =
     (case fold md5_block (blocks 64 (md5_pad m))
             (0x67452301, 0xefcdab89, 0x98badcfe, 0x10325476) of
        (a, b, c, d) \<Rightarrow> concat (map (\<lambda>w. le_bytes 4 (unat w)) [a, b, c, d]))"

definition hexdigit :: "nat \<Rightarrow> nat" where
  "hexdigit n = (if n < 10 then 48 + n else 87 + n)"

definition hexdigest :: "byte list \<Rightarrow> ustr" where
  "hexdigest bs = concat (map (\<lambda>b. [hexdigit (unat b div 16), hexdigit (unat b mod 16)]) bs)"

definition is_hex :: "nat \<Rightarrow> bool" where
  \<comment> \<open>the characters \<open>0\<close> to \<open>9\<close> and \<open>a\<close> to \<open>f\<close>\<close>
  "is_hex c \<longleftrightarrow> (48 \<le> c \<and> c \<le> 57) \<or> (97 \<le> c \<and> c \<le> 102)"


section \<open>The cache mapping and its JSON form\<close>

text \<open>
  \<open>self.cache\<close> is a \<open>dict\<close> from keys to paths. A \<open>dict\<close> keeps insertion order (the
  order \<open>json.dump\<close> writes and \<open>show_cache_info\<close> lists), so it is an association list:
  \<open>d[k] = v\<close> replaces the value in place or appends the pair, \<open>del d[k]\<close> removes it.
\<close>

type_synonym dict = "(ustr \<times> ustr) list"

definition dict_get :: "dict \<Rightarrow> ustr \<Rightarrow> ustr option" where
  "dict_get d k = map_of d k"

fun dict_set :: "dict \<Rightarrow> ustr \<Rightarrow> ustr \<Rightarrow> dict" where
  "dict_set [] k v = [(k, v)]"
| "dict_set ((k', v') # d) k v =
     (if k' = k then (k, v) # d else (k', v') # dict_set d k v)"

definition dict_del :: "dict \<Rightarrow> ustr \<Rightarrow> dict" where
  "dict_del d k = filter (\<lambda>p. fst p \<noteq> k) d"

text \<open>
  \<open>json.dump(self.cache, f, ensure_ascii=False, indent=2)\<close> writes the text in chunks:
  \<open>{}\<close> for the empty mapping; otherwise \<open>{\<close>, a newline and two spaces, then for each
  entry the quoted key, \<open>: \<close> and the quoted path, entries separated by a comma, a
  newline and two spaces, and at the end a newline and \<open>}\<close>. Inside quotes only the
  double quote (34), the backslash (92) and the control characters below 32 are escaped.
\<close>

definition json_escape_char :: "nat \<Rightarrow> ustr" where
  "json_escape_char c =
     (if c = 34 then [92, 34]
      else if c = 92 then [92, 92]
      else if c = 10 then [92, 110]
      else if c = 13 then [92, 114]
      else if c = 9 then [92, 116]
      else if c = 8 then [92, 98]
      else if c = 12 then [92, 102]
      else if c < 32 then [92, 117, 48, 48, hexdigit (c div 16), hexdigit (c mod 16)]
      else [c])"

definition json_encode_str :: "ustr \<Rightarrow> ustr" where
  "json_encode_str s = [34] @ concat (map json_escape_char s) @ [34]"

fun json_items :: "bool \<Rightarrow> dict \<Rightarrow> ustr list" where
  "json_items first [] = []"
| "json_items first ((k, v) # d) =
     (if first then [] else [[44, 10, 32, 32]]) @
     [json_encode_str k, [58, 32], json_encode_str v] @ json_items False d"

definition json_chunks :: "dict \<Rightarrow> ustr list" where
  "json_chunks d =
     (if d = [] then [[123, 125]]
      else [[123], [10, 32, 32]] @ json_items True d @ [[10], [125]])"

definition json_dumps :: "dict \<Rightarrow> ustr" where
  "json_dumps d = concat (json_chunks d)"

text \<open>
  \<open>json.load\<close> has three outcomes that matter here. \<open>Decoded\<close>: the text is a JSON
  object whose values are all strings (the only texts this program writes) and the
  library returns the mapping. \<open>Malformed\<close>: the library raises, because the text is no
  JSON document or because a document exceeds a limit of the interpreter.
  \<open>Foreign\<close>: the text is a JSON document of another shape and the library returns a
  value that is no mapping of strings to strings; such a run is followed no further.

  The decision is taken in two parts: \<open>json_valid\<close> tells whether the library raises,
  and \<open>decode_mapping\<close> reads the objects of strings.
\<close>

datatype 'a parsed = Decoded 'a | Malformed | Foreign

definition skip_ws :: "ustr \<Rightarrow> ustr" where
  "skip_ws s = dropWhile (\<lambda>c. c = 32 \<or> c = 9 \<or> c = 10 \<or> c = 13) s"

definition hexval :: "nat \<Rightarrow> nat option" where
  "hexval c =
     (if 48 \<le> c \<and> c \<le> 57 then Some (c - 48)
      else if 97 \<le> c \<and> c \<le> 102 then Some (c - 87)
      else if 65 \<le> c \<and> c \<le> 70 then Some (c - 55)
      else None)"

definition hex4 :: "ustr \<Rightarrow> nat option" where
  "hex4 s =
     (case s of
        a # b # c # d # _ \<Rightarrow>
          (case (hexval a, hexval b, hexval c, hexval d) of
             (Some x, Some y, Some z, Some t) \<Rightarrow> Some (((x * 16 + y) * 16 + z) * 16 + t)
           | _ \<Rightarrow> None)
      | _ \<Rightarrow> None)"

definition unescape :: "nat \<Rightarrow> nat option" where
  \<comment> \<open>the character after a backslash, other than \<open>u\<close>\<close>
  "unescape e =
     (if e = 34 then Some 34 else if e = 92 then Some 92 else if e = 47 then Some 47
      else if e = 98 then Some 8 else if e = 102 then Some 12 else if e = 110 then Some 10
      else if e = 114 then Some 13 else if e = 116 then Some 9 else None)"

definition cons_result :: "nat \<Rightarrow> (ustr \<times> ustr) option \<Rightarrow> (ustr \<times> ustr) option" where
  "cons_result c r = (case r of None \<Rightarrow> None | Some (s, rest) \<Rightarrow> Some (c # s, rest))"

text \<open>
  \<open>scanstring\<close> reads a string body up to its closing quote and returns it with the rest
  of the text. A \<open>\u\<close> escape of a high surrogate followed by one of a low surrogate is
  one code point.
\<close>

function scanstring :: "ustr \<Rightarrow> (ustr \<times> ustr) option" where
  "scanstring [] = None"
| "scanstring (c # cs) =
     (if c = 34 then Some ([], cs)
      else if c = 92 then
        (case cs of
           [] \<Rightarrow> None
         | e # es \<Rightarrow>
             if e = 117 then
               (case hex4 es of
                  None \<Rightarrow> None
                | Some u \<Rightarrow>
                    if 0xD800 \<le> u \<and> u \<le> 0xDBFF \<and> take 2 (drop 4 es) = [92, 117] then
                      (case hex4 (drop 6 es) of
                         None \<Rightarrow> None
                       | Some u2 \<Rightarrow>
                           if 0xDC00 \<le> u2 \<and> u2 \<le> 0xDFFF
                           then cons_result (0x10000 + (u - 0xD800) * 1024 + (u2 - 0xDC00))
                                  (scanstring (drop 10 es))
                           else cons_result u (scanstring (drop 4 es)))
                    else cons_result u (scanstring (drop 4 es)))
             else
               (case unescape e of
                  None \<Rightarrow> None
                | Some ch \<Rightarrow> cons_result ch (scanstring es)))
      else if c < 32 then None
      else cons_result c (scanstring cs))"
  by pat_completeness auto
termination
  by (relation "measure length") auto

definition value_start :: "nat \<Rightarrow> bool" where
  \<comment> \<open>the first characters of the JSON values other than a string\<close>
  "value_start c \<longleftrightarrow>
     c = 123 \<or> c = 91 \<or> c = 45 \<or> (48 \<le> c \<and> c \<le> 57) \<or>
     c = 116 \<or> c = 102 \<or> c = 110 \<or> c = 78 \<or> c = 73"

text \<open>
  \<open>parse_pairs\<close> starts behind the opening quote of a key and reads the members up to
  the closing brace. The first argument bounds the number of members still to read; the
  length of the text is always enough.
\<close>

fun parse_pairs :: "nat \<Rightarrow> ustr \<Rightarrow> (dict \<times> ustr) parsed" where
  "parse_pairs 0 s = Malformed"
| "parse_pairs (Suc n) s =
     (case scanstring s of
        None \<Rightarrow> Malformed
      | Some (key, r) \<Rightarrow>
          (case skip_ws r of
             [] \<Rightarrow> Malformed
           | c # r1 \<Rightarrow>
               if c \<noteq> 58 then Malformed
               else
                 (case skip_ws r1 of
                    [] \<Rightarrow> Malformed
                  | q # r2 \<Rightarrow>
                      if q = 34 then
                        (case scanstring r2 of
                           None \<Rightarrow> Malformed
                         | Some (val, r3) \<Rightarrow>
                             (case skip_ws r3 of
                                [] \<Rightarrow> Malformed
                              | d # r4 \<Rightarrow>
                                  if d = 125 then Decoded ([(key, val)], r4)
                                  else if d = 44 then
                                    (case skip_ws r4 of
                                       [] \<Rightarrow> Malformed
                                     | q' # r5 \<Rightarrow>
                                         if q' = 34 then
                                           (case parse_pairs n r5 of
                                              Decoded (ps, rest) \<Rightarrow> Decoded ((key, val) # ps, rest)
                                            | Malformed \<Rightarrow> Malformed
                                            | Foreign \<Rightarrow> Foreign)
                                         else Malformed)
                                  else Malformed))
                      else if value_start q then Foreign
                      else Malformed)))"

definition json_finish :: "dict \<Rightarrow> ustr \<Rightarrow> dict parsed" where
  \<comment> \<open>\<open>dict(pairs)\<close>, and nothing but whitespace may follow the value\<close>
  "json_finish ps rest =
     (if skip_ws rest = [] then Decoded (fold (\<lambda>p d. dict_set d (fst p) (snd p)) ps [])
      else Malformed)"

definition decode_mapping :: "ustr \<Rightarrow> dict parsed" where
  "decode_mapping s =
     (case s of
        [] \<Rightarrow> Malformed
      | b # _ \<Rightarrow>
          if b = 0xFEFF then Malformed
          else
            (case skip_ws s of
               [] \<Rightarrow> Malformed
             | c # r \<Rightarrow>
                 if c = 123 then
                   (case skip_ws r of
                      [] \<Rightarrow> Malformed
                    | q # r1 \<Rightarrow>
                        if q = 125 then json_finish [] r1
                        else if q = 34 then
                          (case parse_pairs (length r1) r1 of
                             Decoded (ps, rest) \<Rightarrow> json_finish ps rest
                           | Malformed \<Rightarrow> Malformed
                           | Foreign \<Rightarrow> Foreign)
                        else Malformed)
                 else if c = 34 \<or> value_start c then Foreign
                 else Malformed))"


text \<open>
  Whether \<open>json.load\<close> raises. The decoder of the library reads the text from left to
  right; \<open>json_step\<close> follows it one character at a time, with the containers that are
  open on a stack. It accepts what the library accepts: the JSON grammar with the
  literals \<open>NaN\<close>, \<open>Infinity\<close> and \<open>-Infinity\<close>, the whitespace characters space, tab,
  newline and carriage return, and no control character inside a string.

  Two limits of the interpreter make the library raise on a well-formed text: entering a
  container raises \<open>RecursionError\<close> when more than \<open>Suc room\<close> containers are open
  (\<open>room\<close> is what the recursion limit leaves beyond the first level), and an integer of
  \<open>n\<close> digits raises \<open>ValueError\<close> when \<open>n\<close> exceeds both 640 and a limit \<open>maxd\<close> that is not
  zero (\<open>sys.get_int_max_str_digits()\<close>, 4300 unless changed).
\<close>

datatype jctx = InArray | InObject

datatype jmode =
    JValue
  | JValueOrEnd
  | JKeyOrEnd
  | JKey
  | JColon
  | JAfter
  | JString bool
  | JEscape bool
  | JHex nat bool
  | JLiteral ustr
  | JMinus
  | JZero
  | JInt nat
  | JDot
  | JFrac
  | JExp
  | JExpSign
  | JExpDigits

definition is_ws :: "nat \<Rightarrow> bool" where
  "is_ws c \<longleftrightarrow> c = 32 \<or> c = 9 \<or> c = 10 \<or> c = 13"

definition is_digit :: "nat \<Rightarrow> bool" where
  "is_digit c \<longleftrightarrow> 48 \<le> c \<and> c \<le> 57"

definition int_ok :: "nat \<Rightarrow> nat \<Rightarrow> bool" where
  \<comment> \<open>an integer of \<open>n\<close> digits is converted without \<open>ValueError\<close>\<close>
  "int_ok maxd n \<longleftrightarrow> \<not> (640 < n \<and> 0 < maxd \<and> maxd < n)"

definition after_step :: "nat \<Rightarrow> jctx list \<Rightarrow> (jmode \<times> jctx list) option" where
  \<comment> \<open>the character that follows a complete value\<close>
  "after_step c st =
     (if is_ws c then Some (JAfter, st)
      else case st of
             [] \<Rightarrow> None
           | InArray # st' \<Rightarrow>
               if c = 44 then Some (JValue, st)
               else if c = 93 then Some (JAfter, st')
               else None
           | InObject # st' \<Rightarrow>
               if c = 44 then Some (JKey, st)
               else if c = 125 then Some (JAfter, st')
               else None)"

definition begin_value :: "nat \<Rightarrow> nat \<Rightarrow> jctx list \<Rightarrow> (jmode \<times> jctx list) option" where
  \<comment> \<open>the first character of a value\<close>
  "begin_value room c st =
     (if c = 34 then Some (JString False, st)
      else if c = 123 then (if length st \<le> room then Some (JKeyOrEnd, InObject # st) else None)
      else if c = 91 then (if length st \<le> room then Some (JValueOrEnd, InArray # st) else None)
      else if c = 110 then Some (JLiteral (ascii ''ull''), st)
      else if c = 116 then Some (JLiteral (ascii ''rue''), st)
      else if c = 102 then Some (JLiteral (ascii ''alse''), st)
      else if c = 78 then Some (JLiteral (ascii ''aN''), st)
      else if c = 73 then Some (JLiteral (ascii ''nfinity''), st)
      else if c = 45 then Some (JMinus, st)
      else if c = 48 then Some (JZero, st)
      else if is_digit c then Some (JInt 1, st)
      else None)"

fun json_step :: "nat \<Rightarrow> nat \<Rightarrow> jmode \<Rightarrow> jctx list \<Rightarrow> nat \<Rightarrow> (jmode \<times> jctx list) option" where
  "json_step room maxd JValue st c =
     (if is_ws c then Some (JValue, st) else begin_value room c st)"
| "json_step room maxd JValueOrEnd st c =
     (if is_ws c then Some (JValueOrEnd, st)
      else if c = 93 then Some (JAfter, tl st)
      else begin_value room c st)"
| "json_step room maxd JKeyOrEnd st c =
     (if is_ws c then Some (JKeyOrEnd, st)
      else if c = 125 then Some (JAfter, tl st)
      else if c = 34 then Some (JString True, st)
      else None)"
| "json_step room maxd JKey st c =
     (if is_ws c then Some (JKey, st)
      else if c = 34 then Some (JString True, st)
      else None)"
| "json_step room maxd JColon st c =
     (if is_ws c then Some (JColon, st)
      else if c = 58 then Some (JValue, st)
      else None)"
| "json_step room maxd JAfter st c = after_step c st"
| "json_step room maxd (JString k) st c =
     (if c = 34 then Some (if k then JColon else JAfter, st)
      else if c = 92 then Some (JEscape k, st)
      else if c < 32 then None
      else Some (JString k, st))"
| "json_step room maxd (JEscape k) st c =
     (if c = 117 then Some (JHex 4 k, st)
      else if unescape c \<noteq> None then Some (JString k, st)
      else None)"
| "json_step room maxd (JHex n k) st c =
     (if hexval c = None then None
      else if n \<le> 1 then Some (JString k, st)
      else Some (JHex (n - 1) k, st))"
| "json_step room maxd (JLiteral l) st c =
     (case l of
        [] \<Rightarrow> None
      | x # xs \<Rightarrow>
          if c \<noteq> x then None
          else if xs = [] then Some (JAfter, st)
          else Some (JLiteral xs, st))"
| "json_step room maxd JMinus st c =
     (if c = 48 then Some (JZero, st)
      else if is_digit c then Some (JInt 1, st)
      else if c = 73 then Some (JLiteral (ascii ''nfinity''), st)
      else None)"
| "json_step room maxd JZero st c =
     (if c = 46 then Some (JDot, st)
      else if c = 101 \<or> c = 69 then Some (JExp, st)
      else after_step c st)"
| "json_step room maxd (JInt n) st c =
     (if is_digit c then Some (JInt (Suc n), st)
      else if c = 46 then Some (JDot, st)
      else if c = 101 \<or> c = 69 then Some (JExp, st)
      else if int_ok maxd n then after_step c st
      else None)"
| "json_step room maxd JDot st c =
     (if is_digit c then Some (JFrac, st) else None)"
| "json_step room maxd JFrac st c =
     (if is_digit c then Some (JFrac, st)
      else if c = 101 \<or> c = 69 then Some (JExp, st)
      else after_step c st)"
| "json_step room maxd JExp st c =
     (if is_digit c then Some (JExpDigits, st)
      else if c = 43 \<or> c = 45 then Some (JExpSign, st)
      else None)"
| "json_step room maxd JExpSign st c =
     (if is_digit c then Some (JExpDigits, st) else None)"
| "json_step room maxd JExpDigits st c =
     (if is_digit c then Some (JExpDigits, st) else after_step c st)"

fun json_run :: "nat \<Rightarrow> nat \<Rightarrow> jmode \<Rightarrow> jctx list \<Rightarrow> ustr \<Rightarrow> (jmode \<times> jctx list) option" where
  "json_run room maxd m st [] = Some (m, st)"
| "json_run room maxd m st (c # cs) =
     (case json_step room maxd m st c of
        None \<Rightarrow> None
      | Some (m', st') \<Rightarrow> json_run room maxd m' st' cs)"

definition json_final :: "nat \<Rightarrow> jmode \<Rightarrow> jctx list \<Rightarrow> bool" where
  \<comment> \<open>at the end of the text one value is complete and no container is open\<close>
  "json_final maxd m st \<longleftrightarrow>
     st = [] \<and>
     (case m of
        JAfter \<Rightarrow> True
      | JZero \<Rightarrow> True
      | JInt n \<Rightarrow> int_ok maxd n
      | JFrac \<Rightarrow> True
      | JExpDigits \<Rightarrow> True
      | _ \<Rightarrow> False)"

definition json_valid :: "nat \<Rightarrow> nat \<Rightarrow> ustr \<Rightarrow> bool" where
  "json_valid room maxd s \<longleftrightarrow>
     take 1 s \<noteq> [0xFEFF] \<and>
     (case json_run room maxd JValue [] s of
        None \<Rightarrow> False
      | Some (m, st) \<Rightarrow> json_final maxd m st)"

definition json_loads :: "nat \<Rightarrow> nat \<Rightarrow> ustr \<Rightarrow> dict parsed" where
  "json_loads room maxd s =
     (if \<not> json_valid room maxd s then Malformed
      else case decode_mapping s of
             Decoded d \<Rightarrow> Decoded d
           | Malformed \<Rightarrow> Foreign
           | Foreign \<Rightarrow> Foreign)"

section \<open>The surroundings: files, output, collaborators\<close>

text \<open>
  A path names a file literally: the file system is a map from paths to nodes, without
  links or a working directory. A node is a text (what \<open>open(..., encoding='utf-8')\<close>
  reads), a directory, or \<open>Opaque\<close>: a file whose reading as UTF-8 text raises, such as
  audio data.

  The world also holds the two limits of the interpreter that \<open>json.load\<close> can meet:
  \<open>recursion_room\<close>, the number of nested containers beyond the first that the recursion
  limit still allows where \<open>_load_cache\<close> is called, and \<open>int_max_str_digits\<close>.

  The libraries are taken at their word in three places: \<open>print\<close> does not fail,
  playback ends (the loop of \<open>_play_audio\<close> waits for it), and the file system either
  refuses to open the cache file for writing or takes every chunk written to it.
\<close>

datatype node = Text ustr | Opaque | Dir

text \<open>What the program prints, one event for each \<open>print\<close> of the class.\<close>

datatype event =
    UsingCache ustr
  | Speaker
  | Bar
  | BarDone
  | Generated ustr
  | CacheSaveFailed
  | Cleared nat
  | PlaybackFailed ustr

record request =
  req_text :: ustr
  req_voice :: ustr
  req_rate :: ustr
  req_volume :: ustr
  req_path :: ustr

record world =
  files :: "ustr \<Rightarrow> node option"
  stdout :: "event list"
  synth_calls :: "request list"
  played :: "ustr list"
  recursion_room :: nat
  int_max_str_digits :: nat

text \<open>
  What the surroundings decide during a call: \<open>edge_tts.Communicate(...)\<close> may reject its
  arguments, \<open>communicate.save\<close> may fail (leaving a partial file or none), playback may
  fail, and the file system may refuse to write or remove the cache file or to create the
  output directory. \<open>timestamp\<close> is \<open>datetime.now().strftime("%Y%m%d%H%M%S")\<close>, and
  \<open>alnum\<close> the interpreter's table of non-ASCII alphanumerics. The world records each
  request to the collaborator (text, voice, rate, volume and destination path) when
  \<open>speak\<close> constructs the \<open>Communicate\<close> object, and each file that was played.
\<close>

datatype synth_result = Saved | Rejected ustr | Failed ustr bool

record env =
  alnum :: "nat \<Rightarrow> bool"
  timestamp :: ustr
  synth_outcome :: "request \<Rightarrow> synth_result"
  playback_ok :: "ustr \<Rightarrow> bool"
  cache_write_ok :: bool
  remove_ok :: bool
  mkdir_ok :: bool

definition exists :: "world \<Rightarrow> ustr \<Rightarrow> bool" where
  \<comment> \<open>\<open>os.path.exists\<close>\<close>
  "exists w p \<longleftrightarrow> files w p \<noteq> None"

definition path_join :: "ustr \<Rightarrow> ustr \<Rightarrow> ustr" where
  \<comment> \<open>\<open>os.path.join\<close> of two parts\<close>
  "path_join a b =
     (if take 1 b = [47] then b
      else if a = [] \<or> drop (length a - 1) a = [47] then a @ b
      else a @ [47] @ b)"

definition basename :: "ustr \<Rightarrow> ustr" where
  \<comment> \<open>\<open>os.path.basename\<close>: what follows the last slash\<close>
  "basename p = rev (takeWhile (\<lambda>c. c \<noteq> 47) (rev p))"

definition endswith :: "ustr \<Rightarrow> ustr \<Rightarrow> bool" where
  "endswith s suffix \<longleftrightarrow>
     length suffix \<le> length s \<and> drop (length s - length suffix) s = suffix"

definition print :: "event \<Rightarrow> world \<Rightarrow> world" where
  "print ev w = w\<lparr>stdout := stdout w @ [ev]\<rparr>"

section \<open>Configuration and the voice table\<close>

text \<open>
  \<open>main.py\<close> imports the five settings from \<open>config.py\<close> and, when the import fails,
  uses its own.
\<close>

record config =
  DEFAULT_VOICE :: ustr
  DEFAULT_RATE :: ustr
  DEFAULT_VOLUME :: ustr
  OUTPUT_DIR :: ustr
  AUTO_PLAY :: bool

definition config_py :: config where
  "config_py =
     \<lparr>DEFAULT_VOICE = ascii ''henri'', DEFAULT_RATE = ascii ''-25%'',
      DEFAULT_VOLUME = ascii ''+0%'', OUTPUT_DIR = ascii ''samples'', AUTO_PLAY = True\<rparr>"

definition builtin_config :: config where
  "builtin_config =
     \<lparr>DEFAULT_VOICE = ascii ''denise'', DEFAULT_RATE = ascii ''+0%'',
      DEFAULT_VOLUME = ascii ''+0%'', OUTPUT_DIR = ascii ''samples'', AUTO_PLAY = True\<rparr>"

definition FRENCH_VOICES :: "(ustr \<times> ustr) list" where
  "FRENCH_VOICES =
     [(ascii ''henri'', ascii ''fr-FR-HenriNeural''),
      (ascii ''denise'', ascii ''fr-FR-DeniseNeural''),
      (ascii ''eloise'', ascii ''fr-FR-EloiseNeural''),
      (ascii ''remy'', ascii ''fr-FR-RemyMultilingualNeural''),
      (ascii ''vivienne'', ascii ''fr-FR-VivienneMultilingualNeural'')]"

section \<open>The session: class FrenchTTS\<close>

record session =
  voice :: ustr
  rate :: ustr
  volume :: ustr
  output_dir :: ustr
  auto_play :: bool
  use_cache :: bool
  cache_file :: ustr
  cache :: dict

text \<open>
  \<^verbatim>\<open>
  def _load_cache(self):
      if os.path.exists(self.cache_file):
          try:
              with open(self.cache_file, 'r', encoding='utf-8') as f:
                  return json.load(f)
          except:
              return {}
      return {}
  \<close>
  \<open>read_cache_file\<close> is the body of the \<open>try\<close>; \<open>JSONDecodeError\<close> stands for every
  exception of \<open>json.load\<close>, and \<open>OtherJSON\<close> for the value the library returns on a
  \<open>Foreign\<close> text.
\<close>

datatype loaded = Mapping dict | OtherJSON

definition read_cache_file :: "ustr \<Rightarrow> world \<Rightarrow> error + loaded" where
  "read_cache_file path w =
     (case files w path of
        None \<Rightarrow> Inl (OSError (ascii ''FileNotFoundError''))
      | Some Dir \<Rightarrow> Inl (OSError (ascii ''IsADirectoryError''))
      | Some Opaque \<Rightarrow> Inl UnicodeDecodeError
      | Some (Text t) \<Rightarrow>
          (case json_loads (recursion_room w) (int_max_str_digits w) t of
             Malformed \<Rightarrow> Inl JSONDecodeError
           | Decoded d \<Rightarrow> Inr (Mapping d)
           | Foreign \<Rightarrow> Inr OtherJSON))"

definition load_cache :: "session \<Rightarrow> world \<Rightarrow> loaded" where
  "load_cache s w =
     (if exists w (cache_file s) then
        (case read_cache_file (cache_file s) w of
           Inr v \<Rightarrow> v
         | Inl e \<Rightarrow> Mapping [])
      else Mapping [])"

text \<open>
  \<^verbatim>\<open>
  def _save_cache(self):
      try:
          with open(self.cache_file, 'w', encoding='utf-8') as f:
              json.dump(self.cache, f, ensure_ascii=False, indent=2)
      except Exception as e:
          print(f"...: {e}")
  \<close>
  \<open>open\<close> fails on a directory or when the file system refuses. \<open>json.dump\<close> writes chunk
  by chunk; a chunk that holds a lone surrogate cannot be encoded, the write raises, and
  the chunks before it are what the file holds when it is closed.
\<close>

definition save_cache :: "env \<Rightarrow> session \<Rightarrow> world \<Rightarrow> world" where
  "save_cache e s w =
     (if \<not> cache_write_ok e \<or> files w (cache_file s) = Some Dir then print CacheSaveFailed w
      else
        let chunks = json_chunks (cache s);
            written = takeWhile (list_all is_scalar) chunks;
            w = w\<lparr>files := (files w)(cache_file s \<mapsto> Text (concat written))\<rparr>
        in if length written < length chunks then print CacheSaveFailed w else w)"

text \<open>
  \<^verbatim>\<open>
  def _get_cache_key(self, text):
      content = f"{text}|{self.voice}|{self.rate}|{self.volume}"
      return hashlib.md5(content.encode('utf-8')).hexdigest()[:16]
  \<close>
\<close>

definition get_cache_key :: "session \<Rightarrow> ustr \<Rightarrow> error + ustr" where
  "get_cache_key s text =
     (let content = text @ [124] @ voice s @ [124] @ rate s @ [124] @ volume s
      in case encode_utf8 content of
           Inl err \<Rightarrow> Inl err
         | Inr bytes \<Rightarrow> Inr (take 16 (hexdigest (md5 bytes))))"

text \<open>
  \<^verbatim>\<open>
  def clear_cache(self):
      count = len(self.cache)
      self.cache = {}
      if os.path.exists(self.cache_file):
          os.remove(self.cache_file)
      print(f"... {count} ...")
  \<close>
  The method has no \<open>return\<close>: its value is \<open>None\<close>. \<open>os.remove\<close> raises on a directory
  or when the file system refuses, after the mapping has been emptied.
\<close>

datatype retval = NoneVal | IntVal int

definition clear_cache :: "env \<Rightarrow> session \<Rightarrow> world \<Rightarrow> (error + retval) \<times> session \<times> world" where
  "clear_cache e s w =
     (let count = length (cache s);
          s = s\<lparr>cache := []\<rparr>
      in if exists w (cache_file s) then
           (if \<not> remove_ok e \<or> files w (cache_file s) = Some Dir
            then (Inl (OSError (ascii ''remove'')), s, w)
            else (Inr NoneVal, s, print (Cleared count) (w\<lparr>files := (files w)(cache_file s := None)\<rparr>)))
         else (Inr NoneVal, s, print (Cleared count) w))"

text \<open>
  \<open>_play_audio\<close> catches every \<open>Exception\<close> of the playback library and prints instead.
\<close>

definition play_audio :: "env \<Rightarrow> ustr \<Rightarrow> world \<Rightarrow> world" where
  "play_audio e file_path w =
     (if playback_ok e file_path then w\<lparr>played := played w @ [file_path]\<rparr>
      else print (PlaybackFailed file_path) w)"

text \<open>
  \<open>speak\<close>, lines 176 to 182: the file name, generated from the time and the text when
  the caller gives none, and always ending in \<open>.mp3\<close>.
\<close>

definition output_filename :: "env \<Rightarrow> ustr \<Rightarrow> ustr option \<Rightarrow> ustr" where
  "output_filename e text filename =
     (let filename =
            (case filename of
               None \<Rightarrow> timestamp e @ [95] @ sanitize_filename (alnum e) text 30 @ ascii ''.mp3''
             | Some f \<Rightarrow> f)
      in if \<not> endswith filename (ascii ''.mp3'') then filename @ ascii ''.mp3'' else filename)"

text \<open>
  \<open>speak\<close>, lines 184 to 217: the call of the synthesis collaborator, the insertion into
  the cache and the playback.
\<close>

definition speak_generate ::
  "env \<Rightarrow> session \<Rightarrow> world \<Rightarrow> ustr \<Rightarrow> ustr option \<Rightarrow> bool \<Rightarrow> bool \<Rightarrow> ustr \<Rightarrow>
     (error + ustr) \<times> session \<times> world" where
  "speak_generate e s w text filename play verbose cache_key =
     (let output_path = path_join (output_dir s) (output_filename e text filename);
          w = (if verbose then print Speaker w else w);
          req = \<lparr>req_text = text, req_voice = voice s, req_rate = rate s,
                 req_volume = volume s, req_path = output_path\<rparr>;
          w = w\<lparr>synth_calls := synth_calls w @ [req]\<rparr>
      in case synth_outcome e req of
           Rejected msg \<Rightarrow> (Inl (SynthesisError msg), s, w)
         | Failed msg partial \<Rightarrow>
             (let w = (if verbose then print Bar w else w);
                  w = (if partial then w\<lparr>files := (files w)(output_path \<mapsto> Opaque)\<rparr> else w)
              in (Inl (SynthesisError msg), s, w))
         | Saved \<Rightarrow>
             (let w = (if verbose then print Bar w else w);
                  w = w\<lparr>files := (files w)(output_path \<mapsto> Opaque)\<rparr>;
                  w = (if verbose then print (Generated output_path) (print BarDone w) else w);
                  s = (if use_cache s then s\<lparr>cache := dict_set (cache s) cache_key output_path\<rparr>
                       else s);
                  w = (if use_cache s then save_cache e s w else w);
                  w = (if play then play_audio e output_path w else w)
              in (Inr output_path, s, w)))"

text \<open>
  \<open>speak\<close>, lines 155 to 173: the key, the lookup, and the return of a cached path whose
  file exists. A cached path whose file is gone is deleted from the mapping, and the call
  goes on to generate.
\<close>

definition speak ::
  "env \<Rightarrow> session \<Rightarrow> world \<Rightarrow> ustr \<Rightarrow> ustr option \<Rightarrow> bool option \<Rightarrow> bool \<Rightarrow> bool \<Rightarrow>
     (error + ustr) \<times> session \<times> world" where
  "speak e s w text filename play force_regenerate verbose =
     (let play = (case play of None \<Rightarrow> auto_play s | Some p \<Rightarrow> p)
      in case get_cache_key s text of
           Inl err \<Rightarrow> (Inl err, s, w)
         | Inr cache_key \<Rightarrow>
             (case (if use_cache s \<and> \<not> force_regenerate then dict_get (cache s) cache_key
                    else None) of
                Some cached_path \<Rightarrow>
                  if exists w cached_path then
                    (let w = (if verbose then print (UsingCache (basename cached_path)) w else w);
                         w = (if play then play_audio e cached_path w else w)
                     in (Inr cached_path, s, w))
                  else
                    speak_generate e (s\<lparr>cache := dict_del (cache s) cache_key\<rparr>) w
                      text filename play verbose cache_key
              | None \<Rightarrow> speak_generate e s w text filename play verbose cache_key))"

text \<open>
  \<^verbatim>\<open>
  def __init__(self, voice=None, rate=None, volume=None, use_cache=True):
      voice = voice or DEFAULT_VOICE
      rate = rate or DEFAULT_RATE
      volume = volume or DEFAULT_VOLUME
      self.voice = FRENCH_VOICES.get(voice, FRENCH_VOICES["denise"])
      ...
      self.cache_file = os.path.join(self.output_dir, ".cache.json")
      self.cache = self._load_cache()
      os.makedirs(self.output_dir, exist_ok=True)
  \<close>
  \<open>x or d\<close> is \<open>d\<close> when \<open>x\<close> is \<open>None\<close> or the empty string.
\<close>

definition py_or :: "ustr option \<Rightarrow> ustr \<Rightarrow> ustr" where
  "py_or x d = (case x of None \<Rightarrow> d | Some v \<Rightarrow> if v = [] then d else v)"

definition makedirs :: "env \<Rightarrow> ustr \<Rightarrow> world \<Rightarrow> error + world" where
  \<comment> \<open>\<open>os.makedirs(path, exist_ok=True)\<close>\<close>
  "makedirs e path w =
     (if path = [] then Inl (OSError (ascii ''FileNotFoundError''))
      else case files w path of
             Some Dir \<Rightarrow> Inr w
           | Some _ \<Rightarrow> Inl (OSError (ascii ''FileExistsError''))
           | None \<Rightarrow>
               if mkdir_ok e then Inr (w\<lparr>files := (files w)(path \<mapsto> Dir)\<rparr>)
               else Inl (OSError (ascii ''PermissionError'')))"

definition init ::
  "config \<Rightarrow> env \<Rightarrow> world \<Rightarrow> ustr option \<Rightarrow> ustr option \<Rightarrow> ustr option \<Rightarrow> bool \<Rightarrow>
     error + session \<times> world" where
  "init cfg e w voice_arg rate_arg volume_arg use_cache_arg =
     (let voice_name = py_or voice_arg (DEFAULT_VOICE cfg);
          rate_v = py_or rate_arg (DEFAULT_RATE cfg);
          volume_v = py_or volume_arg (DEFAULT_VOLUME cfg)
      in case map_of FRENCH_VOICES (ascii ''denise'') of
           None \<Rightarrow> Inl KeyError
         | Some fallback \<Rightarrow>
             (let s = \<lparr>voice = (case map_of FRENCH_VOICES voice_name of
                                   Some v \<Rightarrow> v | None \<Rightarrow> fallback),
                        rate = rate_v, volume = volume_v,
                        output_dir = OUTPUT_DIR cfg, auto_play = AUTO_PLAY cfg,
                        use_cache = use_cache_arg,
                        cache_file = path_join (OUTPUT_DIR cfg) (ascii ''.cache.json''),
                        cache = []\<rparr>
              in case load_cache s w of
                   OtherJSON \<Rightarrow> Inl NotModelled
                 | Mapping d \<Rightarrow>
                     (case makedirs e (output_dir s) w of
                        Inl err \<Rightarrow> Inl err
                      | Inr w' \<Rightarrow> Inr (s\<lparr>cache := d\<rparr>, w'))))"


section \<open>A concrete session, for closed examples\<close>

definition demo_env :: env where
  "demo_env =
     \<lparr>alnum = latin1_alnum, timestamp = ascii ''20240101120000'',
      synth_outcome = (\<lambda>r. Saved), playback_ok = (\<lambda>p. True),
      cache_write_ok = True, remove_ok = True, mkdir_ok = True\<rparr>"

definition demo_session :: session where
  "demo_session =
     \<lparr>voice = ascii ''fr-FR-HenriNeural'', rate = ascii ''-25%'', volume = ascii ''+0%'',
      output_dir = ascii ''samples'', auto_play = True, use_cache = True,
      cache_file = ascii ''samples/.cache.json'', cache = []\<rparr>"

definition demo_world :: world where
  "demo_world =
     \<lparr>files = Map.empty, stdout = [], synth_calls = [], played = [],
      recursion_room = 980, int_max_str_digits = 4300\<rparr>"

text \<open>
  The same session with one stored entry, under the key of the text \<open>Bonjour\<close>, and a
  world that holds one file.
\<close>

definition hit_session :: "ustr \<Rightarrow> session" where
  "hit_session path = demo_session\<lparr>cache := [(ascii ''0ef3b100d9f84b94'', path)]\<rparr>"

definition file_world :: "ustr \<Rightarrow> world" where
  "file_world path = demo_world\<lparr>files := [path \<mapsto> Opaque]\<rparr>"

text \<open>A world whose cache file holds a given text.\<close>

definition text_world :: "ustr \<Rightarrow> world" where
  "text_world t = demo_world\<lparr>files := [cache_file demo_session \<mapsto> Text t]\<rparr>"

text \<open>Surroundings that refuse to write the cache file, and a collaborator that fails.\<close>

definition readonly_env :: env where
  "readonly_env = demo_env\<lparr>cache_write_ok := False\<rparr>"

definition failing_env :: env where
  "failing_env = demo_env\<lparr>synth_outcome := (\<lambda>r. Failed (ascii ''no network'') False)\<rparr>"

section \<open>Properties of the filename sanitization\<close>








lemmas slug_eval =
  sanitize_filename_def spec_slug_def ascii_def re_word_def isalnum_def ascii_alnum_def
  isspace_def strip_def rstrip_chars_def py_prefix_def




section \<open>Properties of the cache key\<close>

lemma length_le_bytes: "length (le_bytes k n) = k"
  by (simp add: le_bytes_def)

lemma length_md5: "length (md5 m) = 16"
  by (simp add: md5_def length_le_bytes split: prod.splits)

lemma length_hexdigest: "length (hexdigest bs) = 2 * length bs"
  by (induction bs) (simp_all add: hexdigest_def)

lemma is_hex_hexdigit: "n < 16 \<Longrightarrow> is_hex (hexdigit n)"
  by (auto simp: is_hex_def hexdigit_def)

lemma hexdigest_is_hex: "list_all is_hex (hexdigest bs)"
proof (induction bs)
  case Nil
  then show ?case by (simp add: hexdigest_def)
next
  case (Cons b bs)
  have "unat b < 256" using unsigned_less [of b] by simp
  then have "unat b div 16 < 16" and "unat b mod 16 < 16" by auto
  with Cons show ?case
    by (simp add: hexdigest_def is_hex_hexdigit)
qed

lemma key_shape:
  "length (take 16 (hexdigest (md5 bs))) = 16 \<and> list_all is_hex (take 16 (hexdigest (md5 bs)))"
proof -
  have "list_all is_hex (hexdigest (md5 bs))" by (rule hexdigest_is_hex)
  then have "list_all is_hex (take 16 (hexdigest (md5 bs)))"
    by (auto simp: list_all_iff dest: in_set_takeD)
  then show ?thesis by (simp add: length_hexdigest length_md5)
qed

lemma is_scalar_bar: "is_scalar 124"
  by (simp add: is_scalar_def)

lemma get_cache_key_scalar:
  assumes "list_all is_scalar (text @ voice s @ rate s @ volume s)"
  shows "get_cache_key s text =
     Inr (take 16 (hexdigest (md5 (concat (map utf8_char
        (text @ [124] @ voice s @ [124] @ rate s @ [124] @ volume s))))))"
  using assms by (simp add: get_cache_key_def encode_utf8_def is_scalar_bar)

lemma get_cache_key_surrogate:
  assumes "\<not> list_all is_scalar (text @ voice s @ rate s @ volume s)"
  shows "get_cache_key s text = Inl UnicodeEncodeError"
  using assms by (auto simp: get_cache_key_def encode_utf8_def is_scalar_bar)

lemma get_cache_key_Inr_shape:
  "get_cache_key s text = Inr k \<Longrightarrow> length k = 16 \<and> list_all is_hex k"
  using key_shape
  by (auto simp: get_cache_key_def Let_def split: sum.splits)

text \<open>
  One key, computed: the text \<open>Bonjour\<close> in the session of \<open>config.py\<close> (voice Henri,
  rate \<open>-25%\<close>, volume \<open>+0%\<close>) has the key \<open>0ef3b100d9f84b94\<close>.
\<close>

lemma replicate_numeral: "replicate (numeral k) x = x # replicate (pred_numeral k) x"
  by (simp add: numeral_eq_Suc)

lemmas md5_eval = md5_def md5_pad_def md5_block_def md5_step_def blocks_def le_bytes_def
  le_word_def rotl32_def md5_K_def md5_shift_def upt_conv_Cons replicate_numeral
  hexdigest_def hexdigit_def

lemma demo_content:
  "encode_utf8 (ascii ''Bonjour'' @ [124] @ voice demo_session @ [124] @ rate demo_session @
      [124] @ volume demo_session) =
   Inr (map of_nat (ascii ''Bonjour|fr-FR-HenriNeural|-25%|+0%''))"
  by (simp add: encode_utf8_def utf8_char_def is_scalar_def demo_session_def ascii_def)

lemma demo_digest:
  "take 16 (hexdigest (md5 (map of_nat (ascii ''Bonjour|fr-FR-HenriNeural|-25%|+0%'')))) =
   ascii ''0ef3b100d9f84b94''"
  by (simp add: md5_eval ascii_def)

lemma demo_key: "get_cache_key demo_session (ascii ''Bonjour'') = Inr (ascii ''0ef3b100d9f84b94'')"
  using demo_content demo_digest by (simp add: get_cache_key_def)

text \<open>
  Claim C5, as stated, fails: a text that holds a lone surrogate (as the interpreter makes
  of an undecodable byte of the command line) has no UTF-8 form, \<open>encode\<close> raises and no
  key is derived.
\<close>

theorem cache_key_surrogate_counterexample:
  "get_cache_key demo_session [0xDCE9] = Inl UnicodeEncodeError"
  by (simp add: get_cache_key_def encode_utf8_def is_scalar_def demo_session_def)

text \<open>
  Claim C5, amended: for every text, voice, rate and volume free of lone surrogates the
  key is derived, it has exactly 16 characters, all of them hexadecimal digits, and it is
  the same in every session with the same voice, rate and volume; with a lone surrogate
  the derivation raises \<open>UnicodeEncodeError\<close>.
\<close>

theorem cache_key_shape:
  "(list_all is_scalar (text @ voice s @ rate s @ volume s) \<longrightarrow>
      (\<exists>k. get_cache_key s text = Inr k \<and> length k = 16 \<and> list_all is_hex k \<and>
           (\<forall>s'. voice s' = voice s \<and> rate s' = rate s \<and> volume s' = volume s \<longrightarrow>
                 get_cache_key s' text = Inr k))) \<and>
   (\<not> list_all is_scalar (text @ voice s @ rate s @ volume s) \<longrightarrow>
      get_cache_key s text = Inl UnicodeEncodeError)"
proof (intro conjI impI)
  assume sc: "list_all is_scalar (text @ voice s @ rate s @ volume s)"
  let ?k = "take 16 (hexdigest (md5 (concat (map utf8_char
        (text @ [124] @ voice s @ [124] @ rate s @ [124] @ volume s)))))"
  have k: "get_cache_key s text = Inr ?k" using sc by (rule get_cache_key_scalar)
  have shape: "length ?k = 16 \<and> list_all is_hex ?k" by (rule key_shape)
  have same: "\<forall>s'. voice s' = voice s \<and> rate s' = rate s \<and> volume s' = volume s \<longrightarrow>
      get_cache_key s' text = Inr ?k"
  proof (intro allI impI)
    fix t :: session
    assume "voice t = voice s \<and> rate t = rate s \<and> volume t = volume s"
    with sc get_cache_key_scalar [of "text" t] show "get_cache_key t text = Inr ?k" by simp
  qed
  from k shape same
  show "\<exists>k. get_cache_key s text = Inr k \<and> length k = 16 \<and> list_all is_hex k \<and>
           (\<forall>s'. voice s' = voice s \<and> rate s' = rate s \<and> volume s' = volume s \<longrightarrow>
                 get_cache_key s' text = Inr k)"
    by blast
next
  assume "\<not> list_all is_scalar (text @ voice s @ rate s @ volume s)"
  then show "get_cache_key s text = Inl UnicodeEncodeError"
    by (rule get_cache_key_surrogate)
qed

theorem cache_key_shape_witness:
  "list_all is_scalar
     (ascii ''Bonjour'' @ voice demo_session @ rate demo_session @ volume demo_session) \<and>
   get_cache_key demo_session (ascii ''Bonjour'') = Inr (ascii ''0ef3b100d9f84b94'') \<and>
   length (ascii ''0ef3b100d9f84b94'') = 16 \<and> list_all is_hex (ascii ''0ef3b100d9f84b94'')"
proof -
  have h: "list_all is_scalar
     (ascii ''Bonjour'' @ voice demo_session @ rate demo_session @ volume demo_session)"
    by (simp add: is_scalar_def demo_session_def ascii_def)
  from cache_key_shape [of "ascii ''Bonjour''" demo_session] h demo_key
  show ?thesis by auto
qed

section \<open>Properties of the mapping operations\<close>

lemma dict_get_set: "dict_get (dict_set d k v) k = Some v"
  by (induction d) (auto simp: dict_get_def)

lemma dict_set_append: "k \<notin> fst ` set d \<Longrightarrow> dict_set d k v = d @ [(k, v)]"
  by (induction d) auto

lemma dict_del_absent: "k \<notin> fst ` set (dict_del d k)"
  by (auto simp: dict_del_def)

lemma values_dict_set: "snd ` set (dict_set d k v) \<subseteq> insert v (snd ` set d)"
  by (induction d) (force split: if_splits)+

lemma values_dict_del: "snd ` set (dict_del d k) \<subseteq> snd ` set d"
  by (auto simp: dict_del_def)

lemma dict_get_value: "dict_get d k = Some v \<Longrightarrow> v \<in> snd ` set d"
  by (auto simp: dict_get_def dest: map_of_SomeD intro: rev_image_eqI)

lemma keys_dict_set: "fst ` set (dict_set d k v) = insert k (fst ` set d)"
  by (induction d) (force split: if_splits)+

lemma distinct_dict_set: "distinct (map fst d) \<Longrightarrow> distinct (map fst (dict_set d k v))"
proof (induction d)
  case Nil
  then show ?case by simp
next
  case (Cons p d)
  then show ?case
    using keys_dict_set [of d k v] by (cases p) (auto simp: image_iff)
qed

lemma distinct_dict_del: "distinct (map fst d) \<Longrightarrow> distinct (map fst (dict_del d k))"
  by (simp add: dict_del_def distinct_map_filter)

section \<open>Properties of strings and paths\<close>

lemma endswith_append: "endswith (a @ suf) suf"
  by (simp add: endswith_def)

lemma endswith_append_left: "endswith b suf \<Longrightarrow> endswith (a @ b) suf"
  by (auto simp: endswith_def)

lemma endswith_path_join: "endswith b suf \<Longrightarrow> endswith (path_join a b) suf"
  using endswith_append_left [of b suf a] endswith_append_left [of b suf "a @ [47]"]
  by (simp add: path_join_def)

lemma endswith_split: "endswith p suf \<Longrightarrow> \<exists>q. p = q @ suf"
  by (metis append_take_drop_id endswith_def)

lemma endswith_basename:
  assumes "endswith p suf" and "47 \<notin> set suf"
  shows "endswith (basename p) suf"
proof -
  from assms(1) obtain q where p: "p = q @ suf" using endswith_split by blast
  have "takeWhile (\<lambda>c. c \<noteq> 47) (rev suf @ rev q) = rev suf @ takeWhile (\<lambda>c. c \<noteq> 47) (rev q)"
    using assms(2) by (intro takeWhile_append2) auto
  then have "basename p = rev (takeWhile (\<lambda>c. c \<noteq> 47) (rev q)) @ suf"
    by (simp add: basename_def p)
  then show ?thesis by (simp add: endswith_append)
qed

lemma output_filename_mp3: "endswith (output_filename e text filename) (ascii ''.mp3'')"
  by (auto simp: output_filename_def Let_def endswith_append)

lemma output_path_mp3:
  "endswith (basename (path_join d (output_filename e text filename))) (ascii ''.mp3'')"
  by (intro endswith_basename endswith_path_join output_filename_mp3) (simp add: ascii_def)

section \<open>What the effects leave alone\<close>

lemma print_fields:
  "files (print ev w) = files w" "synth_calls (print ev w) = synth_calls w"
  "played (print ev w) = played w" "stdout (print ev w) = stdout w @ [ev]"
  "recursion_room (print ev w) = recursion_room w"
  "int_max_str_digits (print ev w) = int_max_str_digits w"
  by (simp_all add: print_def)

lemma play_audio_fields:
  "files (play_audio e p w) = files w" "synth_calls (play_audio e p w) = synth_calls w"
  "played (play_audio e p w) = (if playback_ok e p then played w @ [p] else played w)"
  "recursion_room (play_audio e p w) = recursion_room w"
  "int_max_str_digits (play_audio e p w) = int_max_str_digits w"
  by (simp_all add: play_audio_def print_fields)

lemma save_cache_fields:
  "synth_calls (save_cache e s w) = synth_calls w" "played (save_cache e s w) = played w"
  "recursion_room (save_cache e s w) = recursion_room w"
  "int_max_str_digits (save_cache e s w) = int_max_str_digits w"
  by (simp_all add: save_cache_def Let_def print_fields)

lemma save_cache_exists: "exists w p \<Longrightarrow> exists (save_cache e s w) p"
  by (simp add: save_cache_def Let_def print_fields exists_def)

section \<open>Properties of speak\<close>

lemma exists_simps:
  "exists (print ev w) p = exists w p"
  "exists (play_audio e q w) p = exists w p"
  "exists (w\<lparr>synth_calls := c\<rparr>) p = exists w p"
  "exists (w\<lparr>files := (files w)(p \<mapsto> x)\<rparr>) p"
  "exists (w\<lparr>synth_calls := c, files := (files w)(p \<mapsto> x)\<rparr>) p"
  by (simp_all add: exists_def print_fields play_audio_fields)

lemma speak_generate_calls:
  "speak_generate e s w text filename play verbose K = (r, s', w') \<Longrightarrow>
   synth_calls w' = synth_calls w @
     [\<lparr>req_text = text, req_voice = voice s, req_rate = rate s, req_volume = volume s,
       req_path = path_join (output_dir s) (output_filename e text filename)\<rparr>]"
  by (auto simp: speak_generate_def Let_def print_fields play_audio_fields save_cache_fields
           split: synth_result.splits if_splits)

lemma speak_generate_error:
  "speak_generate e s w text filename play verbose K = (Inl err, s', w') \<Longrightarrow>
   (\<exists>msg. err = SynthesisError msg) \<and> s' = s"
  by (auto simp: speak_generate_def Let_def split: synth_result.splits)

lemma speak_generate_saved:
  assumes "synth_outcome e \<lparr>req_text = text, req_voice = voice s, req_rate = rate s,
       req_volume = volume s,
       req_path = path_join (output_dir s) (output_filename e text filename)\<rparr> = Saved"
  shows "\<exists>w'. speak_generate e s w text filename play verbose K =
           (Inr (path_join (output_dir s) (output_filename e text filename)),
            (if use_cache s
             then s\<lparr>cache := dict_set (cache s) K
                     (path_join (output_dir s) (output_filename e text filename))\<rparr>
             else s), w') \<and>
          exists w' (path_join (output_dir s) (output_filename e text filename))"
  using assms
  by (auto simp: speak_generate_def Let_def exists_simps intro!: save_cache_exists)

lemma speak_generate_value:
  "speak_generate e s w text filename play verbose K = (Inr p, s', w') \<Longrightarrow>
   p = path_join (output_dir s) (output_filename e text filename) \<and>
   cache s' = (if use_cache s then dict_set (cache s) K p else cache s)"
  by (auto simp: speak_generate_def Let_def split: synth_result.splits)


lemma speak_cases:
  assumes "speak e s w text filename play force verbose = (r, s', w')"
    and "get_cache_key s text = Inr K"
  shows "(\<exists>F. use_cache s \<and> \<not> force \<and> dict_get (cache s) K = Some F \<and> exists w F \<and>
              r = Inr F \<and> s' = s \<and> synth_calls w' = synth_calls w \<and> files w' = files w) \<or>
         (\<not> (use_cache s \<and> \<not> force \<and> (\<exists>F. dict_get (cache s) K = Some F \<and> exists w F)) \<and>
          speak_generate e
            (if use_cache s \<and> \<not> force \<and> dict_get (cache s) K \<noteq> None
             then s\<lparr>cache := dict_del (cache s) K\<rparr> else s)
            w text filename (case play of None \<Rightarrow> auto_play s | Some b \<Rightarrow> b) verbose K =
            (r, s', w'))"
  using assms
  by (auto simp: speak_def Let_def print_fields play_audio_fields split: option.splits if_splits)

text \<open>
  Claim C1: in a session with caching enabled whose mapping sends the key \<open>K\<close> of the text
  to a path \<open>F\<close> that exists, \<open>speak\<close> without \<open>force_regenerate\<close> returns \<open>F\<close>, leaves the
  session and the files as they are, does not call the synthesis collaborator, and plays
  \<open>F\<close> when playing is on.
\<close>

theorem speak_cache_hit:
  assumes "get_cache_key s text = Inr K" and "dict_get (cache s) K = Some F"
    and "exists w F" and "use_cache s"
  shows "\<exists>w'. speak e s w text filename play False verbose = (Inr F, s, w') \<and>
           synth_calls w' = synth_calls w \<and> files w' = files w \<and>
           played w' =
             (if (case play of None \<Rightarrow> auto_play s | Some b \<Rightarrow> b) \<and> playback_ok e F
              then played w @ [F] else played w)"
  using assms
  by (auto simp: speak_def Let_def print_fields play_audio_fields split: option.splits)


text \<open>
  Claim C7: in a session with caching enabled whose mapping sends the key of the text to
  a path that no longer exists, \<open>speak\<close> calls the synthesis collaborator once; when the
  collaborator saves the audio, \<open>speak\<close> returns the new path, the key maps to the new
  path, and without \<open>force_regenerate\<close> the stale entry has been removed and the new one
  appended. The only error \<open>speak\<close> can surface is a failure of the collaborator.
\<close>

theorem speak_stale_entry:
  assumes "get_cache_key s text = Inr K" and "dict_get (cache s) K = Some F"
    and "\<not> exists w F" and "use_cache s"
  shows "let P = path_join (output_dir s) (output_filename e text filename);
             req = \<lparr>req_text = text, req_voice = voice s, req_rate = rate s,
                    req_volume = volume s, req_path = P\<rparr>
         in case speak e s w text filename play force verbose of
              (r, s', w') \<Rightarrow>
                synth_calls w' = synth_calls w @ [req] \<and>
                (synth_outcome e req = Saved \<longrightarrow>
                   r = Inr P \<and> dict_get (cache s') K = Some P \<and> exists w' P \<and>
                   (\<not> force \<longrightarrow> cache s' = dict_del (cache s) K @ [(K, P)])) \<and>
                (\<forall>err. r = Inl err \<longrightarrow> (\<exists>msg. err = SynthesisError msg))"
proof -
  let ?P = "path_join (output_dir s) (output_filename e text filename)"
  let ?req = "\<lparr>req_text = text, req_voice = voice s, req_rate = rate s,
                    req_volume = volume s, req_path = ?P\<rparr>"
  let ?s2 = "if use_cache s \<and> \<not> force \<and> dict_get (cache s) K \<noteq> None
             then s\<lparr>cache := dict_del (cache s) K\<rparr> else s"
  let ?play = "case play of None \<Rightarrow> auto_play s | Some b \<Rightarrow> b"
  obtain r s' w' where sp: "speak e s w text filename play force verbose = (r, s', w')"
    by (cases "speak e s w text filename play force verbose") auto
  have fields: "voice ?s2 = voice s" "rate ?s2 = rate s" "volume ?s2 = volume s"
    "output_dir ?s2 = output_dir s" "use_cache ?s2"
    using assms(4) by simp_all
  from speak_cases [OF sp assms(1)] assms(2,3)
  have gen: "speak_generate e ?s2 w text filename ?play verbose K = (r, s', w')"
    by auto
  have calls: "synth_calls w' = synth_calls w @ [?req]"
    using speak_generate_calls [OF gen] fields by simp
  have err: "\<forall>err. r = Inl err \<longrightarrow> (\<exists>msg. err = SynthesisError msg)"
    using speak_generate_error gen by blast
  have saved: "r = Inr ?P \<and> dict_get (cache s') K = Some ?P \<and> exists w' ?P \<and>
      (\<not> force \<longrightarrow> cache s' = dict_del (cache s) K @ [(K, ?P)])"
    if ok: "synth_outcome e ?req = Saved"
  proof -
    have ok2: "synth_outcome e \<lparr>req_text = text, req_voice = voice ?s2, req_rate = rate ?s2,
        req_volume = volume ?s2,
        req_path = path_join (output_dir ?s2) (output_filename e text filename)\<rparr> = Saved"
      using ok fields by simp
    from speak_generate_saved [OF ok2, where w = w and play = ?play and verbose = verbose
        and K = K] gen fields
    have r: "r = Inr ?P" and s': "s' = ?s2\<lparr>cache := dict_set (cache ?s2) K ?P\<rparr>"
      and ex: "exists w' ?P"
      by auto
    have get: "dict_get (cache s') K = Some ?P"
      by (simp add: s' dict_get_set)
    have app: "cache s' = dict_del (cache s) K @ [(K, ?P)]" if "\<not> force"
      using that assms(2,4) by (simp add: s' dict_set_append dict_del_absent)
    from r get ex app show ?thesis by blast
  qed
  from calls err saved show ?thesis
    by (simp add: sp Let_def)
qed

lemma hit_session_key:
  "get_cache_key (hit_session path) (ascii ''Bonjour'') = Inr (ascii ''0ef3b100d9f84b94'')"
  using demo_key by (simp add: get_cache_key_def hit_session_def)

text \<open>
  Claim C10, as stated, fails: a cache hit returns the stored path as it is. A mapping
  read from a cache file that sends the key to \<open>notes.txt\<close>, a file that exists, makes
  \<open>speak\<close> return \<open>notes.txt\<close>.
\<close>

theorem speak_returns_stored_path_counterexample:
  "fst (speak demo_env (hit_session (ascii ''notes.txt'')) (file_world (ascii ''notes.txt''))
        (ascii ''Bonjour'') None None False False) = Inr (ascii ''notes.txt'') \<and>
   \<not> endswith (basename (ascii ''notes.txt'')) (ascii ''.mp3'')"
proof -
  have "dict_get (cache (hit_session (ascii ''notes.txt''))) (ascii ''0ef3b100d9f84b94'') =
      Some (ascii ''notes.txt'')"
    by (simp add: hit_session_def dict_get_def)
  moreover have "exists (file_world (ascii ''notes.txt'')) (ascii ''notes.txt'')"
    by (simp add: file_world_def exists_def)
  moreover have "use_cache (hit_session (ascii ''notes.txt''))"
    by (simp add: hit_session_def demo_session_def)
  ultimately have "fst (speak demo_env (hit_session (ascii ''notes.txt''))
      (file_world (ascii ''notes.txt'')) (ascii ''Bonjour'') None None False False) =
      Inr (ascii ''notes.txt'')"
    using hit_session_key [of "ascii ''notes.txt''"]
    by (simp add: speak_def Let_def)
  moreover have "\<not> endswith (basename (ascii ''notes.txt'')) (ascii ''.mp3'')"
    by (simp add: endswith_def basename_def ascii_def)
  ultimately show ?thesis by simp
qed

text \<open>
  Claim C10, amended: a call of \<open>speak\<close> that returns a path either returns a path whose
  file name ends in \<open>.mp3\<close> (every path it generates does), or it is a cache hit that
  returns a stored path unchanged; and when every stored path has a file name ending in
  \<open>.mp3\<close>, so has the returned path and so has every path stored afterwards.
\<close>

theorem speak_returns_mp3:
  assumes "speak e s w text filename play force verbose = (Inr p, s', w')"
  shows "(endswith (basename p) (ascii ''.mp3'') \<or>
            (use_cache s \<and> \<not> force \<and> p \<in> snd ` set (cache s) \<and> exists w p \<and> s' = s)) \<and>
         ((\<forall>v\<in>snd ` set (cache s). endswith (basename v) (ascii ''.mp3'')) \<longrightarrow>
            endswith (basename p) (ascii ''.mp3'') \<and>
            (\<forall>v\<in>snd ` set (cache s'). endswith (basename v) (ascii ''.mp3'')))"
proof -
  obtain K where key: "get_cache_key s text = Inr K"
    using assms by (auto simp: speak_def Let_def split: sum.splits)
  let ?s2 = "if use_cache s \<and> \<not> force \<and> dict_get (cache s) K \<noteq> None
             then s\<lparr>cache := dict_del (cache s) K\<rparr> else s"
  let ?play = "case play of None \<Rightarrow> auto_play s | Some b \<Rightarrow> b"
  from speak_cases [OF assms key]
  consider (hit) "use_cache s" "\<not> force" "dict_get (cache s) K = Some p" "exists w p" "s' = s"
    | (gen) "speak_generate e ?s2 w text filename ?play verbose K = (Inr p, s', w')"
    by auto
  then show ?thesis
  proof cases
    case hit
    then show ?thesis using dict_get_value [of "cache s" K p] by auto
  next
    case gen
    from speak_generate_value [OF gen]
    have p: "p = path_join (output_dir ?s2) (output_filename e text filename)"
      and c: "cache s' = (if use_cache ?s2 then dict_set (cache ?s2) K p else cache ?s2)"
      by auto
    have mp3: "endswith (basename p) (ascii ''.mp3'')"
      unfolding p by (rule output_path_mp3)
    have a: "snd ` set (cache ?s2) \<subseteq> snd ` set (cache s)"
      using values_dict_del [of "cache s" K]
      by (cases "use_cache s \<and> \<not> force \<and> dict_get (cache s) K \<noteq> None") simp_all
    have b: "snd ` set (cache s') \<subseteq> insert p (snd ` set (cache ?s2))"
      using values_dict_set [of "cache ?s2" K p]
      by (cases "use_cache ?s2") (simp_all only: c if_True if_False subset_insertI)
    from a b have sub: "snd ` set (cache s') \<subseteq> insert p (snd ` set (cache s))"
      by blast
    from mp3 sub show ?thesis by blast
  qed
qed

text \<open>The three theorems above at the session with one stored entry.\<close>

theorem speak_cache_hit_witness:
  "get_cache_key (hit_session (ascii ''samples/bonjour.mp3'')) (ascii ''Bonjour'') =
     Inr (ascii ''0ef3b100d9f84b94'') \<and>
   dict_get (cache (hit_session (ascii ''samples/bonjour.mp3''))) (ascii ''0ef3b100d9f84b94'') =
     Some (ascii ''samples/bonjour.mp3'') \<and>
   exists (file_world (ascii ''samples/bonjour.mp3'')) (ascii ''samples/bonjour.mp3'') \<and>
   use_cache (hit_session (ascii ''samples/bonjour.mp3'')) \<and>
   (\<exists>w'. speak demo_env (hit_session (ascii ''samples/bonjour.mp3''))
           (file_world (ascii ''samples/bonjour.mp3'')) (ascii ''Bonjour'') None None False False =
         (Inr (ascii ''samples/bonjour.mp3''), hit_session (ascii ''samples/bonjour.mp3''), w') \<and>
         synth_calls w' = [] \<and> played w' = [ascii ''samples/bonjour.mp3''])"
proof -
  let ?F = "ascii ''samples/bonjour.mp3''"
  have h1: "get_cache_key (hit_session ?F) (ascii ''Bonjour'') = Inr (ascii ''0ef3b100d9f84b94'')"
    by (rule hit_session_key)
  have h2: "dict_get (cache (hit_session ?F)) (ascii ''0ef3b100d9f84b94'') = Some ?F"
    by (simp add: hit_session_def dict_get_def)
  have h3: "exists (file_world ?F) ?F"
    by (simp add: file_world_def exists_def)
  have h4: "use_cache (hit_session ?F)"
    by (simp add: hit_session_def demo_session_def)
  from speak_cache_hit [OF h1 h2 h3 h4, where e = demo_env and filename = None
      and play = None and verbose = False]
  obtain w' where
    "speak demo_env (hit_session ?F) (file_world ?F) (ascii ''Bonjour'') None None False False =
       (Inr ?F, hit_session ?F, w')"
    and "synth_calls w' = synth_calls (file_world ?F)"
    and "played w' = (if auto_play (hit_session ?F) \<and> playback_ok demo_env ?F
                      then played (file_world ?F) @ [?F] else played (file_world ?F))"
    by auto
  then have "\<exists>w'. speak demo_env (hit_session ?F) (file_world ?F) (ascii ''Bonjour'')
        None None False False = (Inr ?F, hit_session ?F, w') \<and>
      synth_calls w' = [] \<and> played w' = [?F]"
    by (simp add: hit_session_def demo_session_def demo_env_def file_world_def demo_world_def)
  with h1 h2 h3 h4 show ?thesis by blast
qed

theorem speak_stale_entry_witness:
  "get_cache_key (hit_session (ascii ''samples/bonjour.mp3'')) (ascii ''Bonjour'') =
     Inr (ascii ''0ef3b100d9f84b94'') \<and>
   dict_get (cache (hit_session (ascii ''samples/bonjour.mp3''))) (ascii ''0ef3b100d9f84b94'') =
     Some (ascii ''samples/bonjour.mp3'') \<and>
   \<not> exists demo_world (ascii ''samples/bonjour.mp3'') \<and>
   use_cache (hit_session (ascii ''samples/bonjour.mp3'')) \<and>
   fst (speak demo_env (hit_session (ascii ''samples/bonjour.mp3'')) demo_world
          (ascii ''Bonjour'') None None False False) =
     Inr (ascii ''samples/20240101120000_Bonjour.mp3'') \<and>
   cache (fst (snd (speak demo_env (hit_session (ascii ''samples/bonjour.mp3'')) demo_world
          (ascii ''Bonjour'') None None False False))) =
     [(ascii ''0ef3b100d9f84b94'', ascii ''samples/20240101120000_Bonjour.mp3'')] \<and>
   length (synth_calls (snd (snd (speak demo_env (hit_session (ascii ''samples/bonjour.mp3''))
          demo_world (ascii ''Bonjour'') None None False False)))) = 1"
proof -
  let ?F = "ascii ''samples/bonjour.mp3''"
  let ?sp = "speak demo_env (hit_session ?F) demo_world (ascii ''Bonjour'') None None False False"
  have h1: "get_cache_key (hit_session ?F) (ascii ''Bonjour'') = Inr (ascii ''0ef3b100d9f84b94'')"
    by (rule hit_session_key)
  have h2: "dict_get (cache (hit_session ?F)) (ascii ''0ef3b100d9f84b94'') = Some ?F"
    by (simp add: hit_session_def dict_get_def)
  have h3: "\<not> exists demo_world ?F"
    by (simp add: demo_world_def exists_def)
  have h4: "use_cache (hit_session ?F)"
    by (simp add: hit_session_def demo_session_def)
  have P: "path_join (output_dir (hit_session ?F)) (output_filename demo_env (ascii ''Bonjour'') None) =
      ascii ''samples/20240101120000_Bonjour.mp3''"
    by (simp add: path_join_def output_filename_def hit_session_def demo_session_def
        demo_env_def endswith_def latin1_alnum_def slug_eval)
  have ok: "synth_outcome demo_env r = Saved" for r
    by (simp add: demo_env_def)
  have del: "dict_del (cache (hit_session ?F)) (ascii ''0ef3b100d9f84b94'') = []"
    by (simp add: dict_del_def hit_session_def)
  have calls0: "synth_calls demo_world = []"
    by (simp add: demo_world_def)
  obtain r s' w' where sp: "?sp = (r, s', w')"
    by (cases ?sp) auto
  from speak_stale_entry [OF h1 h2 h3 h4, where e = demo_env and filename = None
      and play = None and force = False and verbose = False]
  have "r = Inr (ascii ''samples/20240101120000_Bonjour.mp3'') \<and>
      cache s' = [(ascii ''0ef3b100d9f84b94'', ascii ''samples/20240101120000_Bonjour.mp3'')] \<and>
      length (synth_calls w') = 1"
    using calls0 by (simp add: Let_def sp P ok del)
  with h1 h2 h3 h4 show ?thesis by (simp add: sp)
qed

theorem speak_returns_mp3_witness:
  "speak demo_env (hit_session (ascii ''samples/bonjour.mp3''))
       (file_world (ascii ''samples/bonjour.mp3'')) (ascii ''Bonjour'') None None False False =
     (Inr (ascii ''samples/bonjour.mp3''), hit_session (ascii ''samples/bonjour.mp3''),
      (file_world (ascii ''samples/bonjour.mp3''))\<lparr>played := [ascii ''samples/bonjour.mp3'']\<rparr>) \<and>
   snd ` set (cache (hit_session (ascii ''samples/bonjour.mp3''))) =
     {ascii ''samples/bonjour.mp3''} \<and>
   endswith (basename (ascii ''samples/bonjour.mp3'')) (ascii ''.mp3'')"
proof -
  let ?F = "ascii ''samples/bonjour.mp3''"
  have sp: "speak demo_env (hit_session ?F) (file_world ?F) (ascii ''Bonjour'') None None False False =
     (Inr ?F, hit_session ?F, (file_world ?F)\<lparr>played := [?F]\<rparr>)"
    using hit_session_key [of ?F]
    by (simp add: speak_def Let_def dict_get_def exists_def play_audio_def hit_session_def
        demo_session_def demo_env_def file_world_def demo_world_def)
  have all: "\<forall>v\<in>snd ` set (cache (hit_session ?F)). endswith (basename v) (ascii ''.mp3'')"
    by (simp add: hit_session_def endswith_def basename_def ascii_def)
  have vals: "snd ` set (cache (hit_session ?F)) = {?F}"
    by (simp add: hit_session_def)
  from speak_returns_mp3 [OF sp] all sp vals show ?thesis by blast
qed

section \<open>Properties of loading and clearing\<close>

text \<open>
  Claim C6: \<open>_load_cache\<close> returns a value in every world, never an exception. It
  returns the empty mapping when the cache file is missing; when the file holds a text
  on which \<open>json.load\<close> raises (a text that is no JSON document, or one that exceeds a
  limit of the interpreter); when the file cannot be read as text; and whatever the
  exception of the body of the \<open>try\<close> is.
\<close>

theorem load_cache_never_raises:
  "(\<not> exists w (cache_file s) \<longrightarrow> load_cache s w = Mapping []) \<and>
   (\<forall>t. files w (cache_file s) = Some (Text t) \<and>
        \<not> json_valid (recursion_room w) (int_max_str_digits w) t \<longrightarrow>
        load_cache s w = Mapping []) \<and>
   (files w (cache_file s) = Some Opaque \<or> files w (cache_file s) = Some Dir \<longrightarrow>
        load_cache s w = Mapping []) \<and>
   (\<forall>err. read_cache_file (cache_file s) w = Inl err \<longrightarrow> load_cache s w = Mapping [])"
  by (auto simp: load_cache_def read_cache_file_def json_loads_def exists_def)

theorem load_cache_never_raises_witness:
  "\<not> exists demo_world (cache_file demo_session) \<and>
   load_cache demo_session demo_world = Mapping [] \<and>
   \<not> json_valid 980 4300 (ascii ''{broken'') \<and>
   load_cache demo_session (text_world (ascii ''{broken'')) = Mapping [] \<and>
   \<not> json_valid 980 4300 (ascii ''{'' @ [34] @ ascii ''a'' @ [34] @ ascii '': 1'') \<and>
   load_cache demo_session
     (text_world (ascii ''{'' @ [34] @ ascii ''a'' @ [34] @ ascii '': 1'')) = Mapping [] \<and>
   \<not> json_valid 980 4300 (ascii ''[1, 2'') \<and>
   load_cache demo_session (text_world (ascii ''[1, 2'')) = Mapping [] \<and>
   \<not> json_valid 980 4300 (ascii ''nul'') \<and>
   load_cache demo_session (text_world (ascii ''nul'')) = Mapping [] \<and>
   \<not> json_valid 980 4300 ([34] @ ascii ''abc'') \<and>
   load_cache demo_session (text_world ([34] @ ascii ''abc'')) = Mapping [] \<and>
   \<not> json_valid 980 4300 (ascii ''{'' @ [34] @ ascii ''a'' @ [34] @ ascii '': 1} x'') \<and>
   load_cache demo_session
     (text_world (ascii ''{'' @ [34] @ ascii ''a'' @ [34] @ ascii '': 1} x'')) = Mapping []"
proof -
  have lim: "recursion_room (text_world t) = 980" "int_max_str_digits (text_world t) = 4300"
    and fl: "files (text_world t) (cache_file demo_session) = Some (Text t)" for t
    by (simp_all add: text_world_def demo_world_def)
  have run: "\<not> json_valid room maxd t \<Longrightarrow> files w (cache_file s) = Some (Text t) \<Longrightarrow>
      recursion_room w = room \<Longrightarrow> int_max_str_digits w = maxd \<Longrightarrow>
      load_cache s w = Mapping []" for room maxd t w s
    using load_cache_never_raises [of w s] by blast
  have missing: "\<not> exists demo_world (cache_file demo_session)"
    by (simp add: exists_def demo_world_def)
  have v1: "\<not> json_valid 980 4300 (ascii ''{broken'')"
    by (simp add: json_valid_def json_final_def begin_value_def after_step_def is_ws_def
        is_digit_def int_ok_def ascii_def)
  have v2: "\<not> json_valid 980 4300 (ascii ''{'' @ [34] @ ascii ''a'' @ [34] @ ascii '': 1'')"
    by (simp add: json_valid_def json_final_def begin_value_def after_step_def is_ws_def
        is_digit_def int_ok_def ascii_def)
  have v3: "\<not> json_valid 980 4300 (ascii ''[1, 2'')"
    by (simp add: json_valid_def json_final_def begin_value_def after_step_def is_ws_def
        is_digit_def int_ok_def ascii_def)
  have v4: "\<not> json_valid 980 4300 (ascii ''nul'')"
    by (simp add: json_valid_def json_final_def begin_value_def after_step_def is_ws_def
        is_digit_def int_ok_def ascii_def)
  have v5: "\<not> json_valid 980 4300 ([34] @ ascii ''abc'')"
    by (simp add: json_valid_def json_final_def begin_value_def after_step_def is_ws_def
        is_digit_def int_ok_def ascii_def)
  have v6: "\<not> json_valid 980 4300 (ascii ''{'' @ [34] @ ascii ''a'' @ [34] @ ascii '': 1} x'')"
    by (simp add: json_valid_def json_final_def begin_value_def after_step_def is_ws_def
        is_digit_def int_ok_def ascii_def)
  from load_cache_never_raises [of demo_world demo_session] missing
  have l0: "load_cache demo_session demo_world = Mapping []" by blast
  note l = run [OF _ fl lim]
  from missing l0 v1 l [OF v1] v2 l [OF v2] v3 l [OF v3] v4 l [OF v4] v5 l [OF v5] v6 l [OF v6]
  show ?thesis by blast
qed

text \<open>
  Claim C4, as stated, fails: \<open>clear_cache\<close> has no \<open>return\<close> statement. On a store of one
  entry it prints the count and its value is \<open>None\<close>, not the count.
\<close>

theorem clear_cache_returns_none_counterexample:
  "length (cache (hit_session (ascii ''samples/bonjour.mp3''))) = 1 \<and>
   fst (clear_cache demo_env (hit_session (ascii ''samples/bonjour.mp3'')) demo_world) =
     Inr NoneVal \<and>
   fst (clear_cache demo_env (hit_session (ascii ''samples/bonjour.mp3'')) demo_world) \<noteq>
     Inr (IntVal 1)"
  by (simp add: clear_cache_def Let_def hit_session_def exists_def demo_world_def)

text \<open>
  Claim C4, amended: on a store of \<open>N\<close> entries \<open>clear_cache\<close> empties the mapping; when the
  cache file is absent, or is a file that the file system lets it remove, it deletes the
  file, prints (and does not return) the count \<open>N\<close>, and a load afterwards gives the empty
  mapping; when the removal fails the exception of \<open>os.remove\<close> leaves the method, with
  the mapping already emptied and nothing printed.
\<close>

theorem clear_cache_clears:
  "((\<not> exists w (cache_file s) \<or> (remove_ok e \<and> files w (cache_file s) \<noteq> Some Dir)) \<longrightarrow>
      clear_cache e s w =
        (Inr NoneVal, s\<lparr>cache := []\<rparr>,
         print (Cleared (length (cache s))) (w\<lparr>files := (files w)(cache_file s := None)\<rparr>)) \<and>
      load_cache (s\<lparr>cache := []\<rparr>)
        (print (Cleared (length (cache s))) (w\<lparr>files := (files w)(cache_file s := None)\<rparr>)) =
        Mapping []) \<and>
   (exists w (cache_file s) \<and> (\<not> remove_ok e \<or> files w (cache_file s) = Some Dir) \<longrightarrow>
      clear_cache e s w = (Inl (OSError (ascii ''remove'')), s\<lparr>cache := []\<rparr>, w))"
proof (intro conjI impI)
  assume a: "\<not> exists w (cache_file s) \<or> (remove_ok e \<and> files w (cache_file s) \<noteq> Some Dir)"
  show "clear_cache e s w =
        (Inr NoneVal, s\<lparr>cache := []\<rparr>,
         print (Cleared (length (cache s))) (w\<lparr>files := (files w)(cache_file s := None)\<rparr>))"
  proof (cases "exists w (cache_file s)")
    case True
    with a show ?thesis by (simp add: clear_cache_def Let_def)
  next
    case False
    then have "(files w)(cache_file s := None) = files w"
      by (auto simp: exists_def)
    with False show ?thesis by (simp add: clear_cache_def Let_def)
  qed
  show "load_cache (s\<lparr>cache := []\<rparr>)
        (print (Cleared (length (cache s))) (w\<lparr>files := (files w)(cache_file s := None)\<rparr>)) =
        Mapping []"
    by (simp add: load_cache_def exists_def print_fields)
next
  assume "exists w (cache_file s) \<and> (\<not> remove_ok e \<or> files w (cache_file s) = Some Dir)"
  then show "clear_cache e s w = (Inl (OSError (ascii ''remove'')), s\<lparr>cache := []\<rparr>, w)"
    by (auto simp: clear_cache_def Let_def)
qed

theorem clear_cache_clears_witness:
  "exists (file_world (cache_file demo_session)) (cache_file demo_session) \<and>
   remove_ok demo_env \<and>
   files (file_world (cache_file demo_session)) (cache_file demo_session) \<noteq> Some Dir \<and>
   clear_cache demo_env (hit_session (ascii ''samples/bonjour.mp3''))
       (file_world (cache_file demo_session)) =
     (Inr NoneVal, demo_session, demo_world\<lparr>stdout := [Cleared 1]\<rparr>) \<and>
   load_cache demo_session (demo_world\<lparr>stdout := [Cleared 1]\<rparr>) = Mapping []"
proof -
  let ?s = "hit_session (ascii ''samples/bonjour.mp3'')"
  let ?w = "file_world (cache_file demo_session)"
  have cf: "cache_file ?s = cache_file demo_session"
    by (simp add: hit_session_def)
  have h1: "exists ?w (cache_file demo_session)"
    by (simp add: file_world_def exists_def)
  have h2: "remove_ok demo_env"
    by (simp add: demo_env_def)
  have h3: "files ?w (cache_file demo_session) \<noteq> Some Dir"
    by (simp add: file_world_def)
  have s': "?s\<lparr>cache := []\<rparr> = demo_session"
    by (simp add: hit_session_def demo_session_def)
  have w': "print (Cleared (length (cache ?s)))
        (?w\<lparr>files := (files ?w)(cache_file demo_session := None)\<rparr>) =
      demo_world\<lparr>stdout := [Cleared 1]\<rparr>"
    by (simp add: print_def file_world_def hit_session_def demo_world_def)
  from clear_cache_clears [of ?w ?s demo_env] h1 h2 h3
  have "clear_cache demo_env ?s ?w = (Inr NoneVal, demo_session, demo_world\<lparr>stdout := [Cleared 1]\<rparr>) \<and>
      load_cache demo_session (demo_world\<lparr>stdout := [Cleared 1]\<rparr>) = Mapping []"
    unfolding cf s' w' by blast
  with h1 h2 h3 show ?thesis by blast
qed

section \<open>Properties of the constructor\<close>

text \<open>
  Claim C9, as stated, fails: the fallback for an unknown name is the fixed entry
  \<open>denise\<close> of the voice table, not the default voice of the configuration. With
  \<open>config.py\<close>, whose default voice is \<open>henri\<close>, the name \<open>bob\<close> gives the voice of Denise.
\<close>

theorem init_unknown_voice_counterexample:
  "map_of FRENCH_VOICES (ascii ''bob'') = None \<and>
   map_of FRENCH_VOICES (DEFAULT_VOICE config_py) = Some (ascii ''fr-FR-HenriNeural'') \<and>
   init config_py demo_env demo_world (Some (ascii ''bob'')) None None True =
     Inr (demo_session\<lparr>voice := ascii ''fr-FR-DeniseNeural''\<rparr>,
          demo_world\<lparr>files := [ascii ''samples'' \<mapsto> Dir]\<rparr>)"
  by (simp add: init_def config_py_def FRENCH_VOICES_def py_or_def Let_def load_cache_def
      exists_def makedirs_def path_join_def demo_session_def demo_world_def demo_env_def ascii_def)

text \<open>
  Claim C9, amended: for every configuration and every non-empty name that is not in the
  voice table, constructing a session with that name is the same, in every world, as
  constructing it with the name \<open>denise\<close>: the voice is that of Denise whatever the
  configured default voice, and the construction succeeds where the output directory
  exists or can be made and no cache file is there. The empty name is treated as no name
  at all, which selects the configured default voice.
\<close>

theorem init_unknown_voice:
  assumes "name \<noteq> []" and "map_of FRENCH_VOICES name = None"
  shows "init cfg e w (Some name) r v u = init cfg e w (Some (ascii ''denise'')) r v u \<and>
         init cfg e w (Some []) r v u = init cfg e w None r v u \<and>
         (\<forall>s w'. init cfg e w (Some name) r v u = Inr (s, w') \<longrightarrow>
                 voice s = ascii ''fr-FR-DeniseNeural'') \<and>
         (files w (path_join (OUTPUT_DIR cfg) (ascii ''.cache.json'')) = None \<and>
          OUTPUT_DIR cfg \<noteq> [] \<and>
          (files w (OUTPUT_DIR cfg) = Some Dir \<or> (files w (OUTPUT_DIR cfg) = None \<and> mkdir_ok e)) \<longrightarrow>
            (\<exists>s w'. init cfg e w (Some name) r v u = Inr (s, w')))"
proof -
  have denise: "map_of FRENCH_VOICES (ascii ''denise'') = Some (ascii ''fr-FR-DeniseNeural'')"
    by (simp add: FRENCH_VOICES_def ascii_def)
  have d_ne: "ascii ''denise'' \<noteq> []"
    by (simp add: ascii_def)
  have eq: "init cfg e w (Some name) r v u = init cfg e w (Some (ascii ''denise'')) r v u"
    using assms denise d_ne
    by (simp add: init_def py_or_def Let_def split: loaded.splits sum.splits)
  have v: "voice s = ascii ''fr-FR-DeniseNeural''" if "init cfg e w (Some name) r v u = Inr (s, w')"
    for s w'
    using that assms denise
    by (auto simp: init_def py_or_def Let_def split: loaded.splits sum.splits)
  have ok: "\<exists>s w'. init cfg e w (Some name) r v u = Inr (s, w')"
    if "files w (path_join (OUTPUT_DIR cfg) (ascii ''.cache.json'')) = None \<and>
        OUTPUT_DIR cfg \<noteq> [] \<and>
        (files w (OUTPUT_DIR cfg) = Some Dir \<or> (files w (OUTPUT_DIR cfg) = None \<and> mkdir_ok e))"
    using that assms denise
    by (auto simp: init_def py_or_def Let_def load_cache_def exists_def makedirs_def)
  have empty: "init cfg e w (Some []) r v u = init cfg e w None r v u"
    by (simp add: init_def py_or_def)
  from eq empty v ok show ?thesis by blast
qed

theorem init_unknown_voice_witness:
  "ascii ''bob'' \<noteq> [] \<and> map_of FRENCH_VOICES (ascii ''bob'') = None \<and>
   init builtin_config demo_env demo_world (Some (ascii ''bob'')) None None True =
     init builtin_config demo_env demo_world (Some (ascii ''denise'')) None None True"
proof -
  have h1: "ascii ''bob'' \<noteq> []" by (simp add: ascii_def)
  have h2: "map_of FRENCH_VOICES (ascii ''bob'') = None"
    by (simp add: FRENCH_VOICES_def ascii_def)
  from init_unknown_voice [OF h1 h2, of builtin_config demo_env demo_world None None True] h1 h2
  show ?thesis by blast
qed

section \<open>JSON: what is written is read back\<close>

lemma hexval_hexdigit: "n < 16 \<Longrightarrow> hexval (hexdigit n) = Some n"
  by (auto simp: hexval_def hexdigit_def)

lemma hex4_control:
  "c < 32 \<Longrightarrow> hex4 (48 # 48 # hexdigit (c div 16) # hexdigit (c mod 16) # t) = Some c"
proof -
  assume c: "c < 32"
  then have "c div 16 < 16" and "c mod 16 < 16" by auto
  then have "hexval (hexdigit (c div 16)) = Some (c div 16)"
    and "hexval (hexdigit (c mod 16)) = Some (c mod 16)"
    by (simp_all add: hexval_hexdigit)
  moreover have "hexval 48 = Some 0" by (simp add: hexval_def)
  ultimately show ?thesis by (simp add: hex4_def)
qed

lemma scan_escape: "scanstring (json_escape_char c @ t) = cons_result c (scanstring t)"
proof -
  consider (special) "c = 34 \<or> c = 92 \<or> c = 10 \<or> c = 13 \<or> c = 9 \<or> c = 8 \<or> c = 12"
    | (control) "c < 32" "c \<noteq> 10" "c \<noteq> 13" "c \<noteq> 9" "c \<noteq> 8" "c \<noteq> 12"
    | (plain) "32 \<le> c" "c \<noteq> 34" "c \<noteq> 92"
    by fastforce
  then show ?thesis
  proof cases
    case special
    then show ?thesis
      by (auto simp: json_escape_char_def unescape_def)
  next
    case control
    then show ?thesis
      by (simp add: json_escape_char_def hex4_control)
  next
    case plain
    then show ?thesis
      by (simp add: json_escape_char_def)
  qed
qed

lemma scanstring_escaped:
  "scanstring (concat (map json_escape_char s) @ 34 # rest) = Some (s, rest)"
proof (induction s)
  case Nil
  then show ?case by simp
next
  case (Cons c s)
  have "scanstring (json_escape_char c @ (concat (map json_escape_char s) @ 34 # rest)) =
      cons_result c (scanstring (concat (map json_escape_char s) @ 34 # rest))"
    by (rule scan_escape)
  with Cons show ?case by (simp add: cons_result_def)
qed

lemma skip_ws_simps:
  "skip_ws (58 # t) = 58 # t" "skip_ws (34 # t) = 34 # t" "skip_ws (44 # t) = 44 # t"
  "skip_ws (125 # t) = 125 # t" "skip_ws (123 # t) = 123 # t"
  "skip_ws (32 # t) = skip_ws t" "skip_ws (10 # t) = skip_ws t" "skip_ws [] = []"
  by (simp_all add: skip_ws_def)

lemma parse_pairs_member:
  assumes "scanstring Y = Some (v, Z)"
  shows "parse_pairs (Suc m) (concat (map json_escape_char k) @ 34 # 58 # 32 # 34 # Y) =
     (case skip_ws Z of
        [] \<Rightarrow> Malformed
      | d # r4 \<Rightarrow>
          if d = 125 then Decoded ([(k, v)], r4)
          else if d = 44 then
            (case skip_ws r4 of
               [] \<Rightarrow> Malformed
             | q' # r5 \<Rightarrow>
                 if q' = 34 then
                   (case parse_pairs m r5 of
                      Decoded (ps, rest) \<Rightarrow> Decoded ((k, v) # ps, rest)
                    | Malformed \<Rightarrow> Malformed
                    | Foreign \<Rightarrow> Foreign)
                 else Malformed)
          else Malformed)"
  using assms scanstring_escaped [of k "58 # 32 # 34 # Y"]
  by (simp add: skip_ws_simps)

lemma parse_pairs_items:
  "length d < n \<Longrightarrow>
   parse_pairs n (concat (map json_escape_char k) @ 34 # 58 # 32 # json_encode_str v @
      concat (json_items False d) @ 10 # 125 # rest) = Decoded ((k, v) # d, rest)"
proof (induction d arbitrary: k v n)
  case Nil
  then obtain m where n: "n = Suc m" by (cases n) auto
  have sc: "scanstring (concat (map json_escape_char v) @ 34 # 10 # 125 # rest) =
      Some (v, 10 # 125 # rest)"
    by (rule scanstring_escaped)
  from parse_pairs_member [OF sc, of m k] show ?case
    by (simp add: n json_encode_str_def skip_ws_simps)
next
  case (Cons p d)
  obtain k' v' where p: "p = (k', v')" by (cases p)
  from Cons.prems obtain m where n: "n = Suc m" and m: "length d < m"
    by (cases n) auto
  let ?tail = "concat (map json_escape_char k') @ 34 # 58 # 32 # json_encode_str v' @
      concat (json_items False d) @ 10 # 125 # rest"
  have ih: "parse_pairs m ?tail = Decoded ((k', v') # d, rest)"
    using m by (rule Cons.IH)
  have sc: "scanstring (concat (map json_escape_char v) @ 34 # 44 # 10 # 32 # 32 # 34 # ?tail) =
      Some (v, 44 # 10 # 32 # 32 # 34 # ?tail)"
    by (rule scanstring_escaped)
  from parse_pairs_member [OF sc, of m k] ih show ?case
    by (simp add: n p json_encode_str_def skip_ws_simps)
qed

lemma length_json_items: "length d \<le> length (concat (json_items b d))"
  by (induction b d rule: json_items.induct) (auto simp: json_encode_str_def)

lemma fold_dict_set_distinct:
  "distinct (map fst (acc @ d)) \<Longrightarrow>
   fold (\<lambda>p d. dict_set d (fst p) (snd p)) d acc = acc @ d"
proof (induction d arbitrary: acc)
  case Nil
  then show ?case by simp
next
  case (Cons p d)
  have "fst p \<notin> fst ` set acc" using Cons.prems by auto
  then have "dict_set acc (fst p) (snd p) = acc @ [p]"
    by (simp add: dict_set_append)
  moreover have "distinct (map fst ((acc @ [p]) @ d))" using Cons.prems by simp
  ultimately show ?case using Cons.IH [of "acc @ [p]"] by simp
qed

lemma decode_roundtrip:
  assumes "distinct (map fst d)"
  shows "decode_mapping (json_dumps d) = Decoded d"
proof (cases d)
  case Nil
  then show ?thesis
    by (simp add: json_dumps_def json_chunks_def decode_mapping_def skip_ws_simps json_finish_def)
next
  case (Cons p d')
  obtain k v where p: "p = (k, v)" by (cases p)
  let ?r1 = "concat (map json_escape_char k) @ 34 # 58 # 32 # json_encode_str v @
      concat (json_items False d') @ 10 # 125 # []"
  have dumps: "json_dumps d = 123 # 10 # 32 # 32 # 34 # ?r1"
    by (simp add: json_dumps_def json_chunks_def Cons p json_encode_str_def)
  have "length d' \<le> length (concat (json_items False d'))"
    by (rule length_json_items)
  then have fuel: "length d' < length ?r1" by simp
  have pp: "parse_pairs (length ?r1) ?r1 = Decoded ((k, v) # d', [])"
    using fuel by (rule parse_pairs_items)
  have fin: "json_finish ((k, v) # d') [] = Decoded d"
    using assms fold_dict_set_distinct [of "[]" d]
    by (simp add: json_finish_def skip_ws_simps Cons p)
  show ?thesis
    unfolding dumps using pp fin
    by (simp add: decode_mapping_def skip_ws_simps del: parse_pairs.simps)
qed

text \<open>What \<open>json.dump\<close> writes is a JSON document, whatever the limits of the interpreter.\<close>

lemma json_run_append:
  "json_run room maxd m st (a @ b) =
     (case json_run room maxd m st a of
        None \<Rightarrow> None
      | Some (m', st') \<Rightarrow> json_run room maxd m' st' b)"
  by (induction a arbitrary: m st) (auto split: option.splits)

lemma run_escape:
  "json_run room maxd (JString k) st (json_escape_char c) = Some (JString k, st)"
proof -
  consider (special) "c = 34 \<or> c = 92 \<or> c = 10 \<or> c = 13 \<or> c = 9 \<or> c = 8 \<or> c = 12"
    | (control) "c < 32" "c \<noteq> 10" "c \<noteq> 13" "c \<noteq> 9" "c \<noteq> 8" "c \<noteq> 12"
    | (plain) "32 \<le> c" "c \<noteq> 34" "c \<noteq> 92"
    by fastforce
  then show ?thesis
  proof cases
    case special
    then show ?thesis
      by (auto simp: json_escape_char_def unescape_def)
  next
    case control
    then have "c div 16 < 16" and "c mod 16 < 16" by auto
    then have "hexval (hexdigit (c div 16)) = Some (c div 16)"
      and "hexval (hexdigit (c mod 16)) = Some (c mod 16)"
      by (simp_all add: hexval_hexdigit)
    moreover have "hexval 48 = Some 0" by (simp add: hexval_def)
    ultimately show ?thesis
      using control by (simp add: json_escape_char_def)
  next
    case plain
    then show ?thesis
      by (simp add: json_escape_char_def)
  qed
qed

lemma run_string_body:
  "json_run room maxd (JString k) st (concat (map json_escape_char s) @ t) =
   json_run room maxd (JString k) st t"
proof (induction s)
  case Nil
  then show ?case by simp
next
  case (Cons c s)
  have "json_run room maxd (JString k) st
          (json_escape_char c @ (concat (map json_escape_char s) @ t)) =
        json_run room maxd (JString k) st (concat (map json_escape_char s) @ t)"
    by (simp only: json_run_append run_escape option.case prod.case)
  with Cons show ?case by simp
qed

lemma run_key:
  "json_run room maxd (JString True) st (concat (map json_escape_char s) @ 34 # t) =
   json_run room maxd JColon st t"
  by (simp add: run_string_body)

lemma run_value:
  "json_run room maxd (JString False) st (concat (map json_escape_char s) @ 34 # t) =
   json_run room maxd JAfter st t"
  by (simp add: run_string_body)

lemma run_member:
  "json_run room maxd (JString True) [InObject]
     (concat (map json_escape_char k) @ 34 # 58 # 32 # json_encode_str v @ t) =
   json_run room maxd JAfter [InObject] t"
  by (simp add: run_key run_value json_encode_str_def is_ws_def begin_value_def)

lemma run_items:
  "json_run room maxd JAfter [InObject] (concat (json_items False d) @ [10, 125]) =
   Some (JAfter, [])"
proof (induction d)
  case Nil
  then show ?case by (simp add: after_step_def is_ws_def)
next
  case (Cons p d)
  obtain k v where p: "p = (k, v)" by (cases p)
  have "json_run room maxd JAfter [InObject]
          (44 # 10 # 32 # 32 # 34 # concat (map json_escape_char k) @ 34 # 58 # 32 #
             json_encode_str v @ concat (json_items False d) @ [10, 125]) =
        json_run room maxd JAfter [InObject] (concat (json_items False d) @ [10, 125])"
    by (simp add: after_step_def is_ws_def run_member)
  with Cons show ?case by (simp add: p json_encode_str_def)
qed

lemma dumps_valid: "json_valid room maxd (json_dumps d)"
proof (cases d)
  case Nil
  then show ?thesis
    by (simp add: json_valid_def json_final_def json_dumps_def json_chunks_def
        is_ws_def begin_value_def)
next
  case (Cons p d')
  obtain k v where p: "p = (k, v)" by (cases p)
  let ?t = "concat (json_items False d') @ [10, 125]"
  have dumps: "json_dumps d = 123 # 10 # 32 # 32 # 34 #
      concat (map json_escape_char k) @ 34 # 58 # 32 # json_encode_str v @ ?t"
    by (simp add: json_dumps_def json_chunks_def Cons p json_encode_str_def)
  have "json_run room maxd JValue [] (json_dumps d) = json_run room maxd JAfter [InObject] ?t"
    unfolding dumps by (simp add: is_ws_def begin_value_def run_member)
  then have "json_run room maxd JValue [] (json_dumps d) = Some (JAfter, [])"
    by (simp add: run_items)
  moreover have "take 1 (json_dumps d) \<noteq> [0xFEFF]"
    unfolding dumps by simp
  ultimately show ?thesis
    by (simp add: json_valid_def json_final_def)
qed

lemma json_roundtrip:
  assumes "distinct (map fst d)"
  shows "json_loads room maxd (json_dumps d) = Decoded d"
  using decode_roundtrip [OF assms] by (simp add: json_loads_def dumps_valid)

section \<open>Saving and loading the cache file\<close>

lemma takeWhile_full: "length (takeWhile P xs) = length xs \<Longrightarrow> takeWhile P xs = xs"
  by (metis takeWhile_eq_take take_all order_refl)

lemma takeWhile_all: "\<forall>x\<in>set xs. P x \<Longrightarrow> takeWhile P xs = xs"
  by simp

lemma save_cache_quiet:
  "CacheSaveFailed \<notin> set (stdout (save_cache e s w)) \<Longrightarrow> stdout (save_cache e s w) = stdout w"
  by (auto simp: save_cache_def Let_def print_fields split: if_splits)

lemma save_cache_written:
  assumes "stdout (save_cache e s w) = stdout w"
  shows "save_cache e s w = w\<lparr>files := (files w)(cache_file s \<mapsto> Text (json_dumps (cache s)))\<rparr>"
proof -
  let ?chunks = "json_chunks (cache s)"
  let ?written = "takeWhile (list_all is_scalar) ?chunks"
  from assms have ok: "cache_write_ok e" "files w (cache_file s) \<noteq> Some Dir"
    and len: "\<not> length ?written < length ?chunks"
    by (auto simp: save_cache_def Let_def print_fields split: if_splits)
  have "length ?written \<le> length ?chunks" by (rule length_takeWhile_le)
  with len have "length ?written = length ?chunks" by simp
  then have "?written = ?chunks" by (rule takeWhile_full)
  with ok show ?thesis
    by (simp add: save_cache_def Let_def json_dumps_def takeWhile_all)
qed

lemma load_after_save:
  assumes "distinct (map fst (cache s))" and "stdout (save_cache e s w) = stdout w"
  shows "load_cache s (save_cache e s w) = Mapping (cache s)"
  using json_roundtrip [OF assms(1), of "recursion_room w" "int_max_str_digits w"]
  by (simp add: save_cache_written [OF assms(2)] load_cache_def exists_def read_cache_file_def)

lemma escape_scalar: "is_scalar c \<Longrightarrow> list_all is_scalar (json_escape_char c)"
  by (auto simp: json_escape_char_def is_scalar_def hexdigit_def)

lemma encode_str_scalar: "list_all is_scalar s \<Longrightarrow> list_all is_scalar (json_encode_str s)"
  by (induction s) (auto simp: json_encode_str_def escape_scalar is_scalar_def)

lemma items_scalar:
  "\<forall>p\<in>set d. list_all is_scalar (fst p) \<and> list_all is_scalar (snd p) \<Longrightarrow>
   list_all (list_all is_scalar) (json_items b d)"
  by (induction b d rule: json_items.induct) (auto simp: encode_str_scalar is_scalar_def)

lemma chunks_scalar:
  "\<forall>p\<in>set d. list_all is_scalar (fst p) \<and> list_all is_scalar (snd p) \<Longrightarrow>
   list_all (list_all is_scalar) (json_chunks d)"
  using items_scalar [of d True] by (auto simp: json_chunks_def is_scalar_def)

lemma save_cache_succeeds:
  assumes "cache_write_ok e" and "files w (cache_file s) \<noteq> Some Dir"
    and "\<forall>p\<in>set (cache s). list_all is_scalar (fst p) \<and> list_all is_scalar (snd p)"
  shows "stdout (save_cache e s w) = stdout w"
proof -
  have "list_all (list_all is_scalar) (json_chunks (cache s))"
    using assms(3) by (rule chunks_scalar)
  then have "takeWhile (list_all is_scalar) (json_chunks (cache s)) = json_chunks (cache s)"
    by (simp add: list_all_iff)
  with assms(1,2) show ?thesis
    by (simp add: save_cache_def Let_def takeWhile_all)
qed

text \<open>
  Claim C8, as stated, fails: a mapping whose path holds a lone surrogate (what the
  interpreter makes of an undecodable byte in a file name) cannot be written as UTF-8.
  \<open>json.dump\<close> raises at the chunk that holds it, \<open>_save_cache\<close> reports the failure, the
  file keeps the chunks written before, and \<open>_load_cache\<close> reads the empty mapping from
  this truncated text.
\<close>

theorem save_load_surrogate_counterexample:
  "cache (hit_session [0xDCE9]) = [(ascii ''0ef3b100d9f84b94'', [0xDCE9])] \<and>
   stdout (save_cache demo_env (hit_session [0xDCE9]) demo_world) = [CacheSaveFailed] \<and>
   files (save_cache demo_env (hit_session [0xDCE9]) demo_world)
     (cache_file (hit_session [0xDCE9])) =
     Some (Text (ascii ''{'' @ [10] @ ascii ''  ''  @ [34] @ ascii ''0ef3b100d9f84b94'' @ [34] @
        ascii '': '')) \<and>
   load_cache (hit_session [0xDCE9])
     (save_cache demo_env (hit_session [0xDCE9]) demo_world) = Mapping [] \<and>
   load_cache (hit_session [0xDCE9])
     (save_cache demo_env (hit_session [0xDCE9]) demo_world) \<noteq>
     Mapping (cache (hit_session [0xDCE9]))"
proof -
  let ?s = "hit_session [0xDCE9]"
  let ?t = "ascii ''{'' @ [10] @ ascii ''  ''  @ [34] @ ascii ''0ef3b100d9f84b94'' @ [34] @
        ascii '': ''"
  have sv: "save_cache demo_env ?s demo_world =
      demo_world\<lparr>files := [cache_file demo_session \<mapsto> Text ?t], stdout := [CacheSaveFailed]\<rparr>"
    by (simp add: save_cache_def Let_def print_def hit_session_def demo_session_def demo_env_def
        demo_world_def json_chunks_def json_encode_str_def json_escape_char_def is_scalar_def
        ascii_def)
  have cf: "cache_file ?s = cache_file demo_session"
    by (simp add: hit_session_def)
  have nv: "\<not> json_valid 980 4300 ?t"
    by (simp add: json_valid_def json_final_def begin_value_def after_step_def is_ws_def
        is_digit_def int_ok_def unescape_def ascii_def)
  have ld: "load_cache ?s (save_cache demo_env ?s demo_world) = Mapping []"
    unfolding sv using nv
    by (simp add: load_cache_def exists_def read_cache_file_def json_loads_def cf demo_world_def)
  have c: "cache ?s = [(ascii ''0ef3b100d9f84b94'', [0xDCE9])]"
    by (simp add: hit_session_def)
  have st: "stdout (save_cache demo_env ?s demo_world) = [CacheSaveFailed]"
    unfolding sv by simp
  have fl: "files (save_cache demo_env ?s demo_world) (cache_file ?s) = Some (Text ?t)"
    unfolding sv cf by simp
  have ne: "load_cache ?s (save_cache demo_env ?s demo_world) \<noteq> Mapping (cache ?s)"
    unfolding ld c by simp
  from c st fl ld ne show ?thesis by blast
qed

text \<open>
  Claim C8, amended: for every mapping (a \<open>dict\<close>: no key twice) of strings to strings,
  when the file system lets the cache file be written and no key or path holds a lone
  surrogate, \<open>_save_cache\<close> reports no failure and \<open>_load_cache\<close> afterwards returns the
  same mapping, entries in the same order, whatever the file held before and whatever
  the limits of the interpreter are. More generally, whenever \<open>_save_cache\<close> reports no
  failure, \<open>_load_cache\<close> afterwards returns the same mapping.
\<close>

theorem save_load_roundtrip:
  assumes "distinct (map fst (cache s))"
  shows "(stdout (save_cache e s w) = stdout w \<longrightarrow>
            load_cache s (save_cache e s w) = Mapping (cache s)) \<and>
         (cache_write_ok e \<and> files w (cache_file s) \<noteq> Some Dir \<and>
          (\<forall>p\<in>set (cache s). list_all is_scalar (fst p) \<and> list_all is_scalar (snd p)) \<longrightarrow>
            stdout (save_cache e s w) = stdout w \<and>
            load_cache s (save_cache e s w) = Mapping (cache s))"
  using assms load_after_save save_cache_succeeds by blast

theorem save_load_roundtrip_witness:
  "distinct (map fst (cache (hit_session [34, 233, 10, 0x1F5D1]))) \<and>
   cache_write_ok demo_env \<and>
   files demo_world (cache_file (hit_session [34, 233, 10, 0x1F5D1])) \<noteq> Some Dir \<and>
   list_all is_scalar (ascii ''0ef3b100d9f84b94'') \<and>
   list_all is_scalar [34, 233, 10, 0x1F5D1] \<and>
   stdout (save_cache demo_env (hit_session [34, 233, 10, 0x1F5D1]) demo_world) =
     stdout demo_world \<and>
   files (save_cache demo_env (hit_session [34, 233, 10, 0x1F5D1]) demo_world)
     (cache_file demo_session) =
     Some (Text (ascii ''{'' @ [10] @ ascii ''  ''  @ [34] @ ascii ''0ef3b100d9f84b94'' @ [34] @
        ascii '': '' @ [34, 92, 34, 233, 92, 110, 0x1F5D1, 34, 10] @ ascii ''}'')) \<and>
   load_cache (hit_session [34, 233, 10, 0x1F5D1])
     (save_cache demo_env (hit_session [34, 233, 10, 0x1F5D1]) demo_world) =
     Mapping [(ascii ''0ef3b100d9f84b94'', [34, 233, 10, 0x1F5D1])]"
proof -
  let ?s = "hit_session [34, 233, 10, 0x1F5D1]"
  have h: "distinct (map fst (cache ?s))"
    by (simp add: hit_session_def)
  have ok: "cache_write_ok demo_env" "files demo_world (cache_file ?s) \<noteq> Some Dir"
    by (simp_all add: demo_env_def demo_world_def)
  have sc: "list_all is_scalar (ascii ''0ef3b100d9f84b94'')"
    "list_all is_scalar [34, 233, 10, 0x1F5D1]"
    by (simp_all add: is_scalar_def ascii_def)
  have c: "cache ?s = [(ascii ''0ef3b100d9f84b94'', [34, 233, 10, 0x1F5D1])]"
    by (simp add: hit_session_def)
  have all: "\<forall>p\<in>set (cache ?s). list_all is_scalar (fst p) \<and> list_all is_scalar (snd p)"
    unfolding c using sc by simp
  from save_load_roundtrip [OF h, of demo_env demo_world] ok all
  have q: "stdout (save_cache demo_env ?s demo_world) = stdout demo_world"
    and l: "load_cache ?s (save_cache demo_env ?s demo_world) = Mapping (cache ?s)"
    by blast+
  have f: "files (save_cache demo_env ?s demo_world) (cache_file demo_session) =
     Some (Text (ascii ''{'' @ [10] @ ascii ''  ''  @ [34] @ ascii ''0ef3b100d9f84b94'' @ [34] @
        ascii '': '' @ [34, 92, 34, 233, 92, 110, 0x1F5D1, 34, 10] @ ascii ''}''))"
    unfolding save_cache_written [OF q]
    by (simp add: hit_session_def demo_session_def json_dumps_def
        json_chunks_def json_encode_str_def json_escape_char_def ascii_def)
  from h ok sc q f l show ?thesis unfolding c by blast
qed

section \<open>The cache file after a mutation\<close>

lemma load_cache_files:
  assumes "files w1 = files w2" and "recursion_room w1 = recursion_room w2"
    and "int_max_str_digits w1 = int_max_str_digits w2" and "cache_file s1 = cache_file s2"
  shows "load_cache s1 w1 = load_cache s2 w2"
  using assms
  by (simp add: load_cache_def exists_def read_cache_file_def split: option.splits node.splits)

lemma speak_generate_saved_form:
  assumes "speak_generate e s w text filename play verbose K = (Inr p, s', w')"
    and "use_cache s"
  shows "\<exists>w5. s' = s\<lparr>cache := dict_set (cache s) K p\<rparr> \<and>
           w' = (if play then play_audio e p (save_cache e s' w5) else save_cache e s' w5)"
  using assms
  by (auto simp: speak_generate_def Let_def split: synth_result.splits)

lemma speak_generate_disk:
  assumes gen: "speak_generate e s w text filename play verbose K = (Inr p, s', w')"
    and uc: "use_cache s" and dist: "distinct (map fst (cache s))"
    and quiet: "CacheSaveFailed \<notin> set (stdout w')"
  shows "load_cache s' w' = Mapping (cache s')"
proof -
  from speak_generate_saved_form [OF gen uc] obtain w5
    where s': "s' = s\<lparr>cache := dict_set (cache s) K p\<rparr>"
      and w': "w' = (if play then play_audio e p (save_cache e s' w5) else save_cache e s' w5)"
    by blast
  have d': "distinct (map fst (cache s'))"
    using dist by (simp add: s' distinct_dict_set)
  have "set (stdout (save_cache e s' w5)) \<subseteq> set (stdout w')"
    by (auto simp: w' play_audio_def print_fields)
  with quiet have "CacheSaveFailed \<notin> set (stdout (save_cache e s' w5))" by blast
  then have "stdout (save_cache e s' w5) = stdout w5" by (rule save_cache_quiet)
  with d' have "load_cache s' (save_cache e s' w5) = Mapping (cache s')"
    by (rule load_after_save)
  moreover have "files w' = files (save_cache e s' w5)"
    and "recursion_room w' = recursion_room (save_cache e s' w5)"
    and "int_max_str_digits w' = int_max_str_digits (save_cache e s' w5)"
    by (simp_all add: w' play_audio_fields)
  ultimately show ?thesis
    using load_cache_files [of w' "save_cache e s' w5" s' s'] by simp
qed

lemma speak_disk:
  assumes sp: "speak e s w text filename play force verbose = (Inr p, s', w')"
    and uc: "use_cache s" and dist: "distinct (map fst (cache s))"
    and called: "synth_calls w' \<noteq> synth_calls w"
    and quiet: "CacheSaveFailed \<notin> set (stdout w')"
  shows "load_cache s' w' = Mapping (cache s')"
proof -
  obtain K where key: "get_cache_key s text = Inr K"
    using sp by (auto simp: speak_def Let_def split: sum.splits)
  let ?s2 = "if use_cache s \<and> \<not> force \<and> dict_get (cache s) K \<noteq> None
             then s\<lparr>cache := dict_del (cache s) K\<rparr> else s"
  let ?play = "case play of None \<Rightarrow> auto_play s | Some b \<Rightarrow> b"
  from speak_cases [OF sp key] called
  have gen: "speak_generate e ?s2 w text filename ?play verbose K = (Inr p, s', w')"
    by auto
  have uc2: "use_cache ?s2" using uc by simp
  have d2: "distinct (map fst (cache ?s2))"
    using dist by (simp add: distinct_dict_del)
  from gen uc2 d2 quiet show ?thesis by (rule speak_generate_disk)
qed

lemma clear_cache_disk:
  assumes "clear_cache e s w = (Inr r, s', w')"
  shows "load_cache s' w' = Mapping (cache s')"
  using assms
  by (auto simp: clear_cache_def Let_def load_cache_def exists_def print_fields
           split: if_splits)

text \<open>
  Claim C3, as stated, fails: \<open>_save_cache\<close> catches a failed write and only reports it.
  Where the cache file cannot be written, \<open>speak\<close> succeeds, the mapping holds the new
  entry and the disk holds none.
\<close>

theorem cache_file_write_failure_counterexample:
  "fst (speak readonly_env demo_session demo_world (ascii ''Bonjour'') None None False False) =
     Inr (ascii ''samples/20240101120000_Bonjour.mp3'') \<and>
   cache (fst (snd (speak readonly_env demo_session demo_world (ascii ''Bonjour'')
     None None False False))) =
     [(ascii ''0ef3b100d9f84b94'', ascii ''samples/20240101120000_Bonjour.mp3'')] \<and>
   load_cache
     (fst (snd (speak readonly_env demo_session demo_world (ascii ''Bonjour'')
        None None False False)))
     (snd (snd (speak readonly_env demo_session demo_world (ascii ''Bonjour'')
        None None False False))) = Mapping []"
proof -
  have P: "path_join (output_dir demo_session) (output_filename readonly_env (ascii ''Bonjour'') None) =
      ascii ''samples/20240101120000_Bonjour.mp3''"
    by (simp add: path_join_def output_filename_def demo_session_def readonly_env_def
        demo_env_def endswith_def latin1_alnum_def slug_eval)
  have sp: "speak readonly_env demo_session demo_world (ascii ''Bonjour'') None None False False =
      (Inr (ascii ''samples/20240101120000_Bonjour.mp3''),
       demo_session\<lparr>cache :=
         [(ascii ''0ef3b100d9f84b94'', ascii ''samples/20240101120000_Bonjour.mp3'')]\<rparr>,
       \<lparr>files = [ascii ''samples/20240101120000_Bonjour.mp3'' \<mapsto> Opaque],
        stdout = [CacheSaveFailed],
        synth_calls = [\<lparr>req_text = ascii ''Bonjour'', req_voice = voice demo_session,
          req_rate = rate demo_session, req_volume = volume demo_session,
          req_path = ascii ''samples/20240101120000_Bonjour.mp3''\<rparr>],
        played = [ascii ''samples/20240101120000_Bonjour.mp3''],
       recursion_room = 980, int_max_str_digits = 4300\<rparr>)"
    unfolding speak_def demo_key speak_generate_def P Let_def
    by (simp add: dict_get_def save_cache_def play_audio_def print_def readonly_env_def
        demo_env_def demo_session_def demo_world_def)
  show ?thesis
    unfolding sp
    by (simp add: load_cache_def exists_def demo_session_def ascii_def)
qed

text \<open>
  Claim C3, amended: in a session whose mapping is a \<open>dict\<close>, after a call of \<open>speak\<close>
  with caching enabled that synthesized and returned a path, if no failed write of the
  cache file was reported, the mapping on disk (what \<open>_load_cache\<close> reads) equals the
  mapping in memory; and after every \<open>clear_cache\<close> that returns, the mapping on disk
  and the mapping in memory are equal (both empty).
\<close>

theorem cache_file_consistent:
  assumes "distinct (map fst (cache s))"
  shows "(speak e s w text filename play force verbose = (Inr p, s1, w1) \<and> use_cache s \<and>
          synth_calls w1 \<noteq> synth_calls w \<and> CacheSaveFailed \<notin> set (stdout w1) \<longrightarrow>
            load_cache s1 w1 = Mapping (cache s1)) \<and>
         (clear_cache e s w = (Inr r, s2, w2) \<longrightarrow> load_cache s2 w2 = Mapping (cache s2))"
  using assms speak_disk clear_cache_disk by blast

theorem cache_file_consistent_witness:
  "distinct (map fst (cache demo_session)) \<and>
   speak demo_env demo_session demo_world (ascii ''Bonjour'') None None False False =
     (Inr (ascii ''samples/20240101120000_Bonjour.mp3''),
      hit_session (ascii ''samples/20240101120000_Bonjour.mp3''),
      \<lparr>files = [ascii ''samples/20240101120000_Bonjour.mp3'' \<mapsto> Opaque,
           cache_file demo_session \<mapsto>
             Text (json_dumps (cache (hit_session (ascii ''samples/20240101120000_Bonjour.mp3''))))],
       stdout = [],
       synth_calls = [\<lparr>req_text = ascii ''Bonjour'', req_voice = voice demo_session,
          req_rate = rate demo_session, req_volume = volume demo_session,
          req_path = ascii ''samples/20240101120000_Bonjour.mp3''\<rparr>],
       played = [ascii ''samples/20240101120000_Bonjour.mp3''],
       recursion_room = 980, int_max_str_digits = 4300\<rparr>) \<and>
   use_cache demo_session \<and>
   load_cache (hit_session (ascii ''samples/20240101120000_Bonjour.mp3''))
     \<lparr>files = [ascii ''samples/20240101120000_Bonjour.mp3'' \<mapsto> Opaque,
           cache_file demo_session \<mapsto>
             Text (json_dumps (cache (hit_session (ascii ''samples/20240101120000_Bonjour.mp3''))))],
       stdout = [],
       synth_calls = [\<lparr>req_text = ascii ''Bonjour'', req_voice = voice demo_session,
          req_rate = rate demo_session, req_volume = volume demo_session,
          req_path = ascii ''samples/20240101120000_Bonjour.mp3''\<rparr>],
       played = [ascii ''samples/20240101120000_Bonjour.mp3''],
       recursion_room = 980, int_max_str_digits = 4300\<rparr> =
     Mapping [(ascii ''0ef3b100d9f84b94'', ascii ''samples/20240101120000_Bonjour.mp3'')]"
proof -
  let ?P = "ascii ''samples/20240101120000_Bonjour.mp3''"
  let ?W = "\<lparr>files = [?P \<mapsto> Opaque,
           cache_file demo_session \<mapsto> Text (json_dumps (cache (hit_session ?P)))],
       stdout = [],
       synth_calls = [\<lparr>req_text = ascii ''Bonjour'', req_voice = voice demo_session,
          req_rate = rate demo_session, req_volume = volume demo_session, req_path = ?P\<rparr>],
       played = [?P], recursion_room = 980, int_max_str_digits = 4300\<rparr>"
  have d: "distinct (map fst (cache demo_session))"
    by (simp add: demo_session_def)
  have P: "path_join (output_dir demo_session) (output_filename demo_env (ascii ''Bonjour'') None) = ?P"
    by (simp add: path_join_def output_filename_def demo_session_def
        demo_env_def endswith_def latin1_alnum_def slug_eval)
  have sp: "speak demo_env demo_session demo_world (ascii ''Bonjour'') None None False False =
      (Inr ?P, hit_session ?P, ?W)"
    unfolding speak_def demo_key speak_generate_def P Let_def
    by (simp add: dict_get_def save_cache_def play_audio_def print_def json_dumps_def
        json_chunks_def json_encode_str_def json_escape_char_def is_scalar_def Let_def
        hit_session_def demo_env_def demo_session_def demo_world_def ascii_def)
  have uc: "use_cache demo_session" by (simp add: demo_session_def)
  have calls: "synth_calls ?W \<noteq> synth_calls demo_world"
    by (simp add: demo_world_def)
  have quiet: "CacheSaveFailed \<notin> set (stdout ?W)" by simp
  have c: "cache (hit_session ?P) = [(ascii ''0ef3b100d9f84b94'', ?P)]"
    by (simp add: hit_session_def)
  from cache_file_consistent [OF d, of demo_env demo_world "ascii ''Bonjour''" None None False False
      ?P "hit_session ?P" ?W] sp uc calls quiet
  have "load_cache (hit_session ?P) ?W = Mapping (cache (hit_session ?P))" by blast
  with d sp uc show ?thesis unfolding c by blast
qed

text \<open>
  The deletion of a stale entry is not followed by a write of its own: when the
  synthesis that follows fails, the entry is gone from the mapping and still on disk.
\<close>

lemma stale_deletion_not_persisted:
  "fst (speak failing_env (hit_session (ascii ''samples/bonjour.mp3''))
          (save_cache demo_env (hit_session (ascii ''samples/bonjour.mp3'')) demo_world)
          (ascii ''Bonjour'') None None False False) =
     Inl (SynthesisError (ascii ''no network'')) \<and>
   cache (fst (snd (speak failing_env (hit_session (ascii ''samples/bonjour.mp3''))
          (save_cache demo_env (hit_session (ascii ''samples/bonjour.mp3'')) demo_world)
          (ascii ''Bonjour'') None None False False))) = [] \<and>
   load_cache demo_session
     (snd (snd (speak failing_env (hit_session (ascii ''samples/bonjour.mp3''))
          (save_cache demo_env (hit_session (ascii ''samples/bonjour.mp3'')) demo_world)
          (ascii ''Bonjour'') None None False False))) =
     Mapping [(ascii ''0ef3b100d9f84b94'', ascii ''samples/bonjour.mp3'')]"
proof -
  let ?s = "hit_session (ascii ''samples/bonjour.mp3'')"
  let ?w = "save_cache demo_env ?s demo_world"
  have d: "distinct (map fst (cache ?s))" by (simp add: hit_session_def)
  have q: "stdout ?w = stdout demo_world"
    by (rule save_cache_succeeds)
       (simp_all add: demo_env_def demo_world_def hit_session_def is_scalar_def ascii_def)
  have w: "?w = demo_world\<lparr>files := (files demo_world)(cache_file ?s \<mapsto> Text (json_dumps (cache ?s)))\<rparr>"
    by (rule save_cache_written [OF q])
  have disk: "load_cache ?s ?w = Mapping (cache ?s)"
    using d q by (rule load_after_save)
  have missing: "\<not> exists ?w (ascii ''samples/bonjour.mp3'')"
    unfolding exists_def w
    by (simp add: demo_world_def hit_session_def demo_session_def ascii_def)
  have got: "dict_get (cache ?s) (ascii ''0ef3b100d9f84b94'') = Some (ascii ''samples/bonjour.mp3'')"
    by (simp add: hit_session_def dict_get_def)
  have uc: "use_cache ?s" by (simp add: hit_session_def demo_session_def)
  have sp: "speak failing_env ?s ?w (ascii ''Bonjour'') None None False False =
      (Inl (SynthesisError (ascii ''no network'')), ?s\<lparr>cache := []\<rparr>,
       ?w\<lparr>synth_calls := synth_calls ?w @
          [\<lparr>req_text = ascii ''Bonjour'', req_voice = voice ?s, req_rate = rate ?s,
            req_volume = volume ?s,
            req_path = path_join (output_dir ?s)
              (output_filename failing_env (ascii ''Bonjour'') None)\<rparr>]\<rparr>)"
    unfolding speak_def hit_session_key Let_def
    using missing got uc
    by (simp add: speak_generate_def Let_def failing_env_def dict_del_def hit_session_def)
  have same: "load_cache demo_session (snd (snd (speak failing_env ?s ?w (ascii ''Bonjour'')
      None None False False))) = load_cache ?s ?w"
    unfolding sp by (rule load_cache_files) (simp_all add: hit_session_def)
  show ?thesis
    unfolding same disk unfolding sp by (simp add: hit_session_def)
qed

end
